theory Spec2Isabelle
  imports Complex_Main "HOL-Library.Sublist"
begin

section \<open>Data model\<close>

text \<open>
  Timestamps are the time values of JavaScript \<open>Date\<close> objects: integer milliseconds
  since the epoch. The source stores them as ISO strings produced by
  \<open>new Date().toISOString()\<close> and reads them back with \<open>new Date(s)\<close>; the round trip
  is the identity on the time value, so a stored timestamp is modelled by that value.
  Every operation reads the clock; the instant of the call is the parameter \<open>now\<close>
  (one instant per call of an operation).
\<close>

type_synonym timestamp = int

text \<open>
  A date field that comes from outside (registration form, seed data) is a string that
  may be absent or unparseable. \<open>Missing\<close> is a falsy field (\<open>undefined\<close>, \<open>null\<close> or
  the empty string), \<open>Malformed\<close> a non-empty string for which \<open>new Date(s)\<close> is an
  Invalid Date (time value \<open>NaN\<close>), \<open>Instant t\<close> a string that parses to time value \<open>t\<close>.
\<close>

datatype date_input = Missing | Malformed | Instant timestamp

record membership =
  mtype :: string
  startDate :: date_input
  endDate :: date_input
  status :: string
  mservices :: "string list"

record current_visit =
  isInside :: bool
  cv_entryTime :: "timestamp option"
  cv_exitTime :: "timestamp option"

record personal_info =
  firstName :: string
  lastName :: string
  email :: string
  phone :: string
  dateOfBirth :: date_input

record customer =
  customerId :: string
  personalInfo :: "personal_info option"
  membership :: "membership option"
  currentVisit :: "current_visit option"

text \<open>
  The \<open>date\<close> of a visit is the UTC calendar day of its creation
  (\<open>toISOString().split('T')[0]\<close>); it is modelled by the day number since the epoch.
\<close>

record visit =
  visitId :: string
  v_customerId :: string
  entryTime :: timestamp
  exitTime :: "timestamp option"
  duration :: "int option"
  services :: "string list"
  date :: int

record scan_entry =
  sh_customerId :: string
  sh_customerName :: string
  sh_action :: string
  sh_timestamp :: timestamp
  sh_isEmergencyOverride :: bool

text \<open>
  The state of the singleton services: the arrays of \<open>DataService\<close> with its visit
  counter, and the scan history of \<open>BarcodeService\<close>. The customer counter of
  \<open>DataService\<close> is left out: it is read only when a registration carries no customer
  id, and validation rejects such a registration before the counter is reached.
\<close>

record state =
  customers :: "customer list"
  visits :: "visit list"
  nextVisitId :: nat
  scanHistory :: "scan_entry list"

section \<open>constants.js\<close>

definition MEMBERSHIP_STATUS_ACTIVE :: string where
  "MEMBERSHIP_STATUS_ACTIVE = ''active''"

definition MEMBERSHIP_STATUS_SUSPENDED :: string where
  "MEMBERSHIP_STATUS_SUSPENDED = ''suspended''"

definition CUSTOMER_ID_MIN_LENGTH :: nat where
  "CUSTOMER_ID_MIN_LENGTH = 8"

definition CUSTOMER_ID_MAX_LENGTH :: nat where
  "CUSTOMER_ID_MAX_LENGTH = 12"

section \<open>dateUtils.js\<close>

definition msPerMinute :: int where
  "msPerMinute = 1000 * 60"

definition msPerDay :: int where
  "msPerDay = 1000 * 60 * 60 * 24"

text \<open>
  \<open>calculateDuration(startTime, endTime)\<close>: 0 for a falsy start, otherwise
  \<open>Math.floor((end - start) / (1000 * 60))\<close>. Integer division in HOL rounds towards
  minus infinity, as \<open>Math.floor\<close> does.
\<close>

definition calculateDuration :: "timestamp option \<Rightarrow> timestamp \<Rightarrow> int" where
  "calculateDuration startTime endTime =
     (case startTime of None \<Rightarrow> 0 | Some start \<Rightarrow> (endTime - start) div msPerMinute)"

text \<open>
  \<open>isSubscriptionExpired(endDate)\<close>: \<open>true\<close> for a falsy end date, otherwise
  \<open>new Date(endDate) < new Date()\<close>. A relational comparison with an Invalid Date
  converts it to \<open>NaN\<close> and is false.
\<close>

definition isSubscriptionExpired :: "date_input \<Rightarrow> timestamp \<Rightarrow> bool" where
  "isSubscriptionExpired e now =
     (case e of Missing \<Rightarrow> True | Malformed \<Rightarrow> False | Instant t \<Rightarrow> t < now)"

text \<open>
  \<open>setDate(getDate() + n)\<close> moves a \<open>Date\<close> by \<open>n\<close> days of the local calendar and keeps
  the local time of day. The instant it reaches depends on the time zone of the
  machine: it is \<open>n\<close> times 24 hours ahead when no clock change falls in between, an
  hour less across a change to summer time and an hour more across the change back.
  The local calendar is a parameter of the model: \<open>cal t n\<close> is the instant reached
  from \<open>t\<close>.
\<close>

type_synonym calendar = "timestamp \<Rightarrow> int \<Rightarrow> timestamp"

text \<open>
  \<open>isSubscriptionExpiringSoon(endDate, gracePeriodDays)\<close>: \<open>false\<close> for a falsy end
  date, otherwise \<open>end <= warning && end >= new Date()\<close> where \<open>warning\<close> is the
  current instant moved \<open>gracePeriodDays\<close> calendar days ahead with \<open>setDate\<close>.
\<close>

definition isSubscriptionExpiringSoon ::
    "calendar \<Rightarrow> date_input \<Rightarrow> int \<Rightarrow> timestamp \<Rightarrow> bool" where
  "isSubscriptionExpiringSoon cal e gracePeriodDays now =
     (case e of Missing \<Rightarrow> False | Malformed \<Rightarrow> False
      | Instant t \<Rightarrow> t \<le> cal now gracePeriodDays \<and> t \<ge> now)"

section \<open>Strings\<close>

text \<open>
  \<open>String.prototype.trim\<close> removes white space and line terminators from both ends.
  Strings are byte strings here, so the white space is the ASCII part of that set:
  tab, line feed, vertical tab, form feed, carriage return and space.
\<close>

definition is_space :: "char \<Rightarrow> bool" where
  "is_space c \<longleftrightarrow> c \<in> {CHR 0x09, CHR 0x0A, CHR 0x0B, CHR 0x0C, CHR 0x0D, CHR '' ''}"

definition trim :: "string \<Rightarrow> string" where
  "trim s = rev (dropWhile is_space (rev (dropWhile is_space s)))"

definition is_digit :: "char \<Rightarrow> bool" where
  "is_digit c \<longleftrightarrow> c \<in> set ''0123456789''"

text \<open>\<open>Number.prototype.toString()\<close> on a non-negative integer: its decimal digits.\<close>

definition digit_char :: "nat \<Rightarrow> char" where
  "digit_char d = ''0123456789'' ! d"

fun toString :: "nat \<Rightarrow> string" where
  "toString n = (if n < 10 then [digit_char n] else toString (n div 10) @ [digit_char (n mod 10)])"

declare toString.simps [simp del]

definition padStart :: "nat \<Rightarrow> char \<Rightarrow> string \<Rightarrow> string" where
  "padStart targetLength c s = replicate (targetLength - length s) c @ s"

section \<open>validators.js\<close>

text \<open>
  A validator returns \<open>{isValid, message}\<close>; the model returns the message of the first
  failing check as \<open>Inl\<close>, and \<open>Inr ()\<close> when the value is valid.
\<close>

definition validateCustomerId :: "string \<Rightarrow> string + unit" where
  "validateCustomerId cid =
     (if cid = [] then Inl ''Customer ID is required''
      else if length cid < CUSTOMER_ID_MIN_LENGTH
        then Inl ''Customer ID must be at least 8 characters''
      else if length cid > CUSTOMER_ID_MAX_LENGTH
        then Inl ''Customer ID must be no more than 12 characters''
      else if \<not> list_all is_digit cid then Inl ''Customer ID must contain only numbers''
      else Inr ())"

definition validateBarcode :: "string \<Rightarrow> string + unit" where
  "validateBarcode barcode =
     (if barcode = [] then Inl ''Barcode is required''
      else let cleanBarcode = trim barcode in
        if length cleanBarcode = 0 then Inl ''Barcode cannot be empty''
        else validateCustomerId cleanBarcode)"

definition validateRequired :: "string \<Rightarrow> bool" where
  "validateRequired v \<longleftrightarrow> \<not> (v = [] \<or> trim v = [])"

text \<open>
  The e-mail pattern \<open>/^[^\s@]+@[^\s@]+\.[^\s@]+$/\<close>: a non-empty local part, an \<open>@\<close>, and a
  rest with a dot that is neither its first nor its last character, none of them with
  white space or a further \<open>@\<close>.
\<close>

definition email_char :: "char \<Rightarrow> bool" where
  "email_char c \<longleftrightarrow> \<not> is_space c \<and> c \<noteq> CHR ''@''"

definition EMAIL_PATTERN :: "string \<Rightarrow> bool" where
  "EMAIL_PATTERN s =
     (let a = takeWhile (\<lambda>c. c \<noteq> CHR ''@'') s; r = dropWhile (\<lambda>c. c \<noteq> CHR ''@'') s
      in a \<noteq> [] \<and> list_all email_char a \<and> r \<noteq> [] \<and> list_all email_char (tl r)
         \<and> CHR ''.'' \<in> set (butlast (tl (tl r))))"

text \<open>
  The phone pattern \<open>/^(\+20-?)?[0-9]{3}-?[0-9]{3}-?[0-9]{4}$/\<close>. No digit group can
  start with \<open>+\<close> or \<open>-\<close>, so an optional part that is present must be consumed.
\<close>

definition opt_dash :: "string \<Rightarrow> string" where
  "opt_dash s = (case s of [] \<Rightarrow> [] | c # r \<Rightarrow> if c = CHR ''-'' then r else s)"

definition PHONE_PATTERN :: "string \<Rightarrow> bool" where
  "PHONE_PATTERN s =
     (let s1 = (if take 3 s = ''+20'' then opt_dash (drop 3 s) else s);
          s2 = opt_dash (drop 3 s1);
          s3 = opt_dash (drop 3 s2)
      in length (take 3 s1) = 3 \<and> list_all is_digit (take 3 s1)
         \<and> length (take 3 s2) = 3 \<and> list_all is_digit (take 3 s2)
         \<and> length s3 = 4 \<and> list_all is_digit s3)"

definition validateEmail :: "string \<Rightarrow> bool" where
  "validateEmail e \<longleftrightarrow> e \<noteq> [] \<and> EMAIL_PATTERN e"

definition validatePhone :: "string \<Rightarrow> bool" where
  "validatePhone p \<longleftrightarrow> p \<noteq> [] \<and> PHONE_PATTERN p"

definition validateDate :: "date_input \<Rightarrow> bool" where
  "validateDate d = (case d of Missing \<Rightarrow> False | Malformed \<Rightarrow> False | Instant t \<Rightarrow> True)"

definition validateDateRange :: "date_input \<Rightarrow> date_input \<Rightarrow> bool" where
  "validateDateRange s e =
     (case (s, e) of (Instant a, Instant b) \<Rightarrow> \<not> b \<le> a | _ \<Rightarrow> False)"

text \<open>
  The data of a registration: the object handed to \<open>registerCustomer\<close>. An absent
  \<open>customerId\<close> is the empty string; \<open>personalInfo\<close> and \<open>membership\<close> may be absent.
  \<open>validateCustomerData\<close> collects field errors; the model returns whether there are
  none (\<open>isValid\<close>).
\<close>

record customer_data =
  cd_customerId :: string
  cd_personalInfo :: "personal_info option"
  cd_membership :: "membership option"

definition validateCustomerData :: "customer_data \<Rightarrow> timestamp \<Rightarrow> bool" where
  "validateCustomerData cd now =
     (let p = cd_personalInfo cd;
          fld = (\<lambda>f. case p of None \<Rightarrow> [] | Some i \<Rightarrow> f i)
      in validateCustomerId (cd_customerId cd) = Inr ()
         \<and> validateRequired (fld firstName)
         \<and> validateRequired (fld lastName)
         \<and> validateEmail (fld email)
         \<and> validatePhone (fld phone)
         \<and> (case (case p of None \<Rightarrow> Missing | Some i \<Rightarrow> dateOfBirth i) of
               Missing \<Rightarrow> True | Malformed \<Rightarrow> False | Instant dob \<Rightarrow> \<not> dob > now)
         \<and> (case cd_membership cd of None \<Rightarrow> True
             | Some m \<Rightarrow> validateDate (startDate m) \<and> validateDate (endDate m)
                 \<and> validateDateRange (startDate m) (endDate m)))"

section \<open>dataService.js\<close>

text \<open>\<open>Array.prototype.find\<close>: the first element that satisfies the predicate.\<close>

text \<open>It is \<^const>\<open>List.find\<close>, with \<open>None\<close> for \<open>undefined\<close>.\<close>

definition getCustomerById :: "state \<Rightarrow> string \<Rightarrow> customer option" where
  "getCustomerById s cid = List.find (\<lambda>c. customerId c = cid) (customers s)"

definition isCustomerIdUnique :: "state \<Rightarrow> string \<Rightarrow> bool" where
  "isCustomerIdUnique s cid \<longleftrightarrow> \<not> list_ex (\<lambda>c. customerId c = cid) (customers s)"

text \<open>
  \<open>addCustomer\<close> is reached only with a customer id in the data (see \<open>state\<close>), so the
  id of the new customer is the id of the data.
\<close>

definition addCustomer :: "state \<Rightarrow> customer_data \<Rightarrow> customer \<times> state" where
  "addCustomer s cd =
     (let newCustomer = \<lparr> customerId = cd_customerId cd,
                           personalInfo = cd_personalInfo cd,
                           membership = cd_membership cd,
                           currentVisit = Some \<lparr> isInside = False, cv_entryTime = None,
                                                 cv_exitTime = None \<rparr> \<rparr>
      in (newCustomer, s\<lparr>customers := customers s @ [newCustomer]\<rparr>))"

text \<open>
  In-place update of the first element of an array that satisfies a predicate: what
  \<open>find\<close> followed by an assignment to a field of the found object does.
\<close>

fun update_first :: "('a \<Rightarrow> bool) \<Rightarrow> ('a \<Rightarrow> 'a) \<Rightarrow> 'a list \<Rightarrow> 'a list" where
  "update_first P f [] = []"
| "update_first P f (x # xs) = (if P x then f x # xs else x # update_first P f xs)"

text \<open>\<open>updateCustomerVisitStatus\<close> throws when the customer is not found: \<open>None\<close>.\<close>

definition updateCustomerVisitStatus ::
    "state \<Rightarrow> string \<Rightarrow> bool \<Rightarrow> timestamp option \<Rightarrow> timestamp option \<Rightarrow> state option" where
  "updateCustomerVisitStatus s cid inside entry exit =
     (case getCustomerById s cid of
        None \<Rightarrow> None
      | Some c \<Rightarrow> Some (s\<lparr>customers :=
          update_first (\<lambda>c. customerId c = cid)
            (\<lambda>c. c\<lparr>currentVisit := Some \<lparr> isInside = inside, cv_entryTime = entry,
                                           cv_exitTime = exit \<rparr>\<rparr>)
            (customers s)\<rparr>))"

definition getVisitById :: "state \<Rightarrow> string \<Rightarrow> visit option" where
  "getVisitById s vid = List.find (\<lambda>v. visitId v = vid) (visits s)"

definition getVisitsByCustomerId :: "state \<Rightarrow> string \<Rightarrow> visit list" where
  "getVisitsByCustomerId s cid = filter (\<lambda>v. v_customerId v = cid) (visits s)"

definition getVisitsByDate :: "state \<Rightarrow> int \<Rightarrow> visit list" where
  "getVisitsByDate s d = filter (\<lambda>v. date v = d) (visits s)"

definition getCurrentVisits :: "state \<Rightarrow> visit list" where
  "getCurrentVisits s = filter (\<lambda>v. exitTime v = None) (visits s)"

text \<open>The visit id of counter value \<open>n\<close>: \<open>`visit${n.toString().padStart(3, '0')}`\<close>.\<close>

definition mkVisitId :: "nat \<Rightarrow> string" where
  "mkVisitId n = ''visit'' @ padStart 3 (CHR ''0'') (toString n)"

text \<open>
  \<open>addVisit(visitData)\<close> as \<open>processEntry\<close> calls it: entry time and date are given
  (truthy), exit time and duration are \<open>null\<close>; \<open>services\<close> may be absent and is then
  the empty array.
\<close>

definition addVisit ::
    "state \<Rightarrow> string \<Rightarrow> timestamp \<Rightarrow> string list option \<Rightarrow> int \<Rightarrow> visit \<times> state" where
  "addVisit s cid entry svcs d =
     (let newVisit = \<lparr> visitId = mkVisitId (nextVisitId s),
                        v_customerId = cid,
                        entryTime = entry,
                        exitTime = None,
                        duration = None,
                        services = (case svcs of None \<Rightarrow> [] | Some l \<Rightarrow> l),
                        date = d \<rparr>
      in (newVisit, s\<lparr>visits := visits s @ [newVisit], nextVisitId := nextVisitId s + 1\<rparr>))"

text \<open>
  \<open>endVisit(visitId, exitTime)\<close> with an exit time given: throws when no visit has the
  id (\<open>None\<close>), otherwise sets \<open>exitTime\<close> and \<open>duration\<close> of the first visit with that id.
\<close>

definition endVisit :: "state \<Rightarrow> string \<Rightarrow> timestamp \<Rightarrow> state option" where
  "endVisit s vid endTime =
     (case getVisitById s vid of
        None \<Rightarrow> None
      | Some v \<Rightarrow> Some (s\<lparr>visits :=
          update_first (\<lambda>v. visitId v = vid)
            (\<lambda>v. v\<lparr>exitTime := Some endTime,
                    duration := Some ((endTime - entryTime v) div msPerMinute)\<rparr>)
            (visits s)\<rparr>))"

text \<open>
  The constructors of \<open>DataService\<close> and \<open>BarcodeService\<close>: the seed arrays, a visit
  counter that starts after the number of seed visits, and an empty scan history.
\<close>

definition init_state :: "customer list \<Rightarrow> visit list \<Rightarrow> state" where
  "init_state customersData visitsData =
     \<lparr> customers = customersData, visits = visitsData,
       nextVisitId = length visitsData + 1, scanHistory = [] \<rparr>"

section \<open>customerService.js\<close>

text \<open>
  The computed \<open>subscriptionStatus\<close> of \<open>enrichCustomerData\<close>. Its \<open>daysUntilExpiry\<close>
  and the display string \<open>statusText\<close> are left out.
\<close>

record subscription_status =
  isValid :: bool
  isExpired :: bool
  isExpiringSoon :: bool
  isSuspended :: bool

definition subscriptionStatus ::
    "calendar \<Rightarrow> customer \<Rightarrow> timestamp \<Rightarrow> subscription_status" where
  "subscriptionStatus cal c now =
     (case membership c of
        None \<Rightarrow> \<lparr> isValid = False, isExpired = False, isExpiringSoon = False,
                  isSuspended = False \<rparr>
      | Some m \<Rightarrow>
          (let expired = isSubscriptionExpired (endDate m) now;
               expiringSoon = isSubscriptionExpiringSoon cal (endDate m) 7 now;
               suspended = (status m = MEMBERSHIP_STATUS_SUSPENDED)
           in \<lparr> isValid = (\<not> expired \<and> \<not> suspended \<and> status m = MEMBERSHIP_STATUS_ACTIVE),
                isExpired = expired,
                isExpiringSoon = expiringSoon,
                isSuspended = suspended \<rparr>))"

text \<open>
  \<open>enrichCustomerData\<close> returns a copy of the customer with computed fields added:
  \<open>subscriptionStatus\<close> above, \<open>visitDuration\<close>, and the display strings \<open>fullName\<close> and
  \<open>displayId\<close>. The copy shares the customer's own fields, which is all the entry and
  exit logic reads, so the enriched customer is the customer together with the two
  computed values.
\<close>

definition visitDuration :: "customer \<Rightarrow> timestamp \<Rightarrow> int" where
  "visitDuration c now =
     (case currentVisit c of
        None \<Rightarrow> 0
      | Some cv \<Rightarrow> (case cv_entryTime cv of
          None \<Rightarrow> 0
        | Some t \<Rightarrow> if isInside cv then (now - t) div msPerMinute else 0))"

definition enrichCustomerData ::
    "calendar \<Rightarrow> customer \<Rightarrow> timestamp \<Rightarrow> customer \<times> subscription_status \<times> int" where
  "enrichCustomerData cal c now = (c, subscriptionStatus cal c now, visitDuration c now)"

text \<open>
  \<open>customerService.getCustomerById\<close>: the message of the failure, or the customer.
\<close>

definition cs_getCustomerById :: "state \<Rightarrow> string \<Rightarrow> string + customer" where
  "cs_getCustomerById s cid =
     (if cid = [] then Inl ''Customer ID is required''
      else case getCustomerById s cid of
        None \<Rightarrow> Inl ''Customer not found''
      | Some c \<Rightarrow> Inr c)"

definition getCustomerByBarcode :: "state \<Rightarrow> string \<Rightarrow> string + customer" where
  "getCustomerByBarcode s barcode =
     (case validateBarcode barcode of
        Inl msg \<Rightarrow> Inl msg
      | Inr _ \<Rightarrow> cs_getCustomerById s (trim barcode))"

record validation_result =
  vr_success :: bool
  vr_isValid :: bool
  vr_message :: string
  vr_warnings :: "string list"

definition validateSubscription ::
    "calendar \<Rightarrow> state \<Rightarrow> string \<Rightarrow> timestamp \<Rightarrow> validation_result" where
  "validateSubscription cal s cid now =
     (case getCustomerById s cid of
        None \<Rightarrow> \<lparr> vr_success = False, vr_isValid = False,
                  vr_message = ''Customer not found'', vr_warnings = [] \<rparr>
      | Some c \<Rightarrow>
        (case membership c of
           None \<Rightarrow> \<lparr> vr_success = False, vr_isValid = False,
                     vr_message = ''No membership found'', vr_warnings = [] \<rparr>
         | Some m \<Rightarrow>
           (let expired = isSubscriptionExpired (endDate m) now;
                expiringSoon = isSubscriptionExpiringSoon cal (endDate m) 7 now;
                suspended = (status m = MEMBERSHIP_STATUS_SUSPENDED);
                r = \<lparr> vr_success = True, vr_isValid = (\<not> expired \<and> \<not> suspended),
                      vr_message = [], vr_warnings = [] \<rparr>
            in if suspended
                 then r\<lparr>vr_message := ''Membership is suspended'', vr_isValid := False\<rparr>
               else if expired
                 then r\<lparr>vr_message := ''Membership has expired'', vr_isValid := False\<rparr>
               else if expiringSoon
                 then r\<lparr>vr_message := ''Membership expires soon'',
                        vr_warnings := vr_warnings r @ [''Subscription expires within 7 days'']\<rparr>
               else r\<lparr>vr_message := ''Membership is valid''\<rparr>)))"

datatype register_error = RegInvalid | RegDuplicateId

definition registerCustomer ::
    "state \<Rightarrow> customer_data \<Rightarrow> timestamp \<Rightarrow> (register_error + customer) \<times> state" where
  "registerCustomer s cd now =
     (if \<not> validateCustomerData cd now then (Inl RegInvalid, s)
      else if cd_customerId cd \<noteq> [] \<and> \<not> isCustomerIdUnique s (cd_customerId cd)
        then (Inl RegDuplicateId, s)
      else let (newCustomer, s') = addCustomer s cd in (Inr newCustomer, s'))"

section \<open>barcodeService.js\<close>

datatype outcome_type =
    validation_error | customer_not_found | subscription_invalid
  | entry | exit | not_inside | already_inside | no_active_visit | system_error
  | force_exit

text \<open>
  The result object of a scan. \<open>otype\<close> is \<open>None\<close> for a result without a \<open>type\<close>
  field. \<open>o_customer\<close> is the (enriched) customer the operation was given, as it was
  looked up before any mutation. \<open>overrideReason\<close> also stands for the \<open>reason\<close> field
  of a forced exit.
\<close>

record outcome =
  success :: bool
  message :: string
  otype :: "outcome_type option"
  o_customer :: "customer option"
  o_visit :: "visit option"
  o_entryTime :: "timestamp option"
  o_exitTime :: "timestamp option"
  o_duration :: "int option"
  o_services :: "string list option"
  warnings :: "string list"
  isEmergencyOverride :: bool
  overrideReason :: "string option"

definition failure :: "string \<Rightarrow> outcome_type option \<Rightarrow> outcome" where
  "failure msg ty =
     \<lparr> success = False, message = msg, otype = ty, o_customer = None, o_visit = None,
       o_entryTime = None, o_exitTime = None, o_duration = None, o_services = None,
       warnings = [], isEmergencyOverride = False, overrideReason = None \<rparr>"

definition NETWORK_ERROR :: string where
  "NETWORK_ERROR = ''Network connection error''"

text \<open>What a \<open>catch\<close> block of the service returns.\<close>

definition caught :: outcome where
  "caught = failure NETWORK_ERROR (Some system_error)"

text \<open>\<open>customer.currentVisit?.isInside\<close> as a condition.\<close>

definition inside :: "customer \<Rightarrow> bool" where
  "inside c = (case currentVisit c of None \<Rightarrow> False | Some cv \<Rightarrow> isInside cv)"

text \<open>
  \<open>addToScanHistory\<close> appends and keeps the last 100 entries. The random \<open>id\<close> of an
  entry is left out.
\<close>

definition addToScanHistory :: "state \<Rightarrow> scan_entry \<Rightarrow> state" where
  "addToScanHistory s e =
     (let h = scanHistory s @ [e]
      in s\<lparr>scanHistory := (if length h > 100 then drop (length h - 100) h else h)\<rparr>)"

definition customerName :: "personal_info \<Rightarrow> string" where
  "customerName p = firstName p @ '' '' @ lastName p"

text \<open>
  \<open>processEntry(customer, services)\<close>. The visit is added and the customer marked
  inside before the scan history entry is built; building it reads
  \<open>customer.personalInfo.firstName\<close>, which throws on a customer without
  \<open>personalInfo\<close>, and the \<open>catch\<close> block then returns \<open>system_error\<close> with the
  mutations done.
\<close>

definition processEntry ::
    "state \<Rightarrow> customer \<Rightarrow> string list option \<Rightarrow> timestamp \<Rightarrow> outcome \<times> state" where
  "processEntry s c svcs now =
     (let (newVisit, s1) =
            addVisit s (customerId c) now
              (Some (case svcs of None \<Rightarrow> [''gym''] | Some l \<Rightarrow> l)) (now div msPerDay)
      in case updateCustomerVisitStatus s1 (customerId c) True (Some now) None of
           None \<Rightarrow> (caught, s1)
         | Some s2 \<Rightarrow>
           (case personalInfo c of
              None \<Rightarrow> (caught, s2)
            | Some p \<Rightarrow>
              (\<lparr> success = True, message = ''Entry recorded successfully'',
                 otype = Some entry, o_customer = Some c, o_visit = Some newVisit,
                 o_entryTime = Some now, o_exitTime = None, o_duration = None,
                 o_services = svcs, warnings = [], isEmergencyOverride = False,
                 overrideReason = None \<rparr>,
               addToScanHistory s2
                 \<lparr> sh_customerId = customerId c, sh_customerName = customerName p,
                   sh_action = ''entry'', sh_timestamp = now,
                   sh_isEmergencyOverride = False \<rparr>)))"

text \<open>
  \<open>processExit(customer)\<close>. The open visit is found by customer id, and closed through
  \<open>endVisit\<close> by its visit id. The \<open>visit\<close> of the result is the found object, which
  shows the closing when it is the object \<open>endVisit\<close> changed.
\<close>

definition processExit :: "state \<Rightarrow> customer \<Rightarrow> timestamp \<Rightarrow> outcome \<times> state" where
  "processExit s c now =
     (if \<not> inside c then (failure ''Customer is not currently inside'' (Some not_inside), s)
      else
        let entryT = (case currentVisit c of None \<Rightarrow> None | Some cv \<Rightarrow> cv_entryTime cv)
        in case List.find (\<lambda>v. v_customerId v = customerId c) (getCurrentVisits s) of
             None \<Rightarrow> (failure ''No active visit found'' (Some no_active_visit), s)
           | Some v \<Rightarrow>
             (let d = calculateDuration entryT now
              in case endVisit s (visitId v) now of
                   None \<Rightarrow> (caught, s)
                 | Some s1 \<Rightarrow>
                   (case updateCustomerVisitStatus s1 (customerId c) False None (Some now) of
                      None \<Rightarrow> (caught, s1)
                    | Some s2 \<Rightarrow>
                      (case personalInfo c of
                         None \<Rightarrow> (caught, s2)
                       | Some p \<Rightarrow>
                         (\<lparr> success = True, message = ''Exit recorded successfully'',
                            otype = Some exit, o_customer = Some c,
                            o_visit = Some (if getVisitById s (visitId v) = Some v
                              then v\<lparr>exitTime := Some now,
                                     duration := Some ((now - entryTime v) div msPerMinute)\<rparr>
                              else v),
                            o_entryTime = entryT, o_exitTime = Some now,
                            o_duration = Some d, o_services = None, warnings = [],
                            isEmergencyOverride = False, overrideReason = None \<rparr>,
                          addToScanHistory s2
                            \<lparr> sh_customerId = customerId c, sh_customerName = customerName p,
                              sh_action = ''exit'', sh_timestamp = now,
                              sh_isEmergencyOverride = False \<rparr>)))))"

text \<open>
  \<open>processBarcodeEntry(barcode, services)\<close>; an omitted \<open>services\<close> argument has the
  default \<open>['gym']\<close>.
\<close>

definition processBarcodeEntry ::
    "calendar \<Rightarrow> state \<Rightarrow> string \<Rightarrow> string list option \<Rightarrow> timestamp
       \<Rightarrow> outcome \<times> state" where
  "processBarcodeEntry cal s barcode svcs now =
     (case validateBarcode barcode of
        Inl msg \<Rightarrow> (failure msg (Some validation_error), s)
      | Inr _ \<Rightarrow>
        (case getCustomerByBarcode s barcode of
           Inl msg \<Rightarrow> (failure msg (Some customer_not_found), s)
         | Inr c \<Rightarrow>
           (let r = validateSubscription cal s (customerId c) now
            in if \<not> vr_isValid r
                 then ((failure (vr_message r) (Some subscription_invalid))
                         \<lparr>o_customer := Some c, warnings := vr_warnings r\<rparr>, s)
               else if inside c then processExit s c now
               else processEntry s c (Some (case svcs of None \<Rightarrow> [''gym''] | Some l \<Rightarrow> l)) now)))"

definition manualEntryExit ::
    "state \<Rightarrow> string \<Rightarrow> string \<Rightarrow> string list option \<Rightarrow> timestamp \<Rightarrow> outcome \<times> state" where
  "manualEntryExit s cid action svcs now =
     (if cid = [] then (failure ''Customer ID is required'' None, s)
      else if action \<notin> set [''entry'', ''exit'']
        then (failure ''Action must be either entry or exit'' None, s)
      else case cs_getCustomerById s cid of
        Inl msg \<Rightarrow> (failure msg None, s)
      | Inr c \<Rightarrow>
          if action = ''entry'' then
            (if inside c then (failure ''Customer is already inside'' (Some already_inside), s)
             else processEntry s c (Some (case svcs of None \<Rightarrow> [''gym''] | Some l \<Rightarrow> l)) now)
          else
            (if \<not> inside c
               then (failure ''Customer is not currently inside'' (Some not_inside), s)
             else processExit s c now))"

text \<open>
  \<open>emergencyOverride(customerId, reason)\<close>: no subscription check; an entry is made with
  both services. A successful result is marked, and a second scan history entry with
  action \<open>emergency_entry\<close> or \<open>emergency_exit\<close> is added.
\<close>

definition emergencyOverride ::
    "state \<Rightarrow> string \<Rightarrow> string \<Rightarrow> timestamp \<Rightarrow> outcome \<times> state" where
  "emergencyOverride s cid reason now =
     (if cid = [] \<or> reason = []
        then (failure ''Customer ID and reason are required for emergency override'' None, s)
      else case cs_getCustomerById s cid of
        Inl msg \<Rightarrow> (failure msg None, s)
      | Inr c \<Rightarrow>
          (let (r, s1) = (if inside c then processExit s c now
                          else processEntry s c (Some [''gym'', ''spa'']) now)
           in if success r then
                (case personalInfo c of
                   None \<Rightarrow> (caught, s1)
                 | Some p \<Rightarrow>
                   (r\<lparr>isEmergencyOverride := True, overrideReason := Some reason\<rparr>,
                    addToScanHistory s1
                      \<lparr> sh_customerId = customerId c, sh_customerName = customerName p,
                        sh_action = ''emergency_'' @ (if otype r = Some exit then ''exit''
                                                      else ''entry''),
                        sh_timestamp = now, sh_isEmergencyOverride = True \<rparr>))
              else (r, s1)))"

text \<open>
  \<open>checkForDuplicateEntry(customerId, timeWindowMs)\<close>: whether the scan history holds an
  entry of the customer whose age is below the window.
\<close>

definition checkForDuplicateEntry :: "state \<Rightarrow> string \<Rightarrow> int \<Rightarrow> timestamp \<Rightarrow> bool" where
  "checkForDuplicateEntry s cid timeWindowMs now =
     (length (filter (\<lambda>scan. sh_customerId scan = cid \<and> now - sh_timestamp scan < timeWindowMs)
                (scanHistory s)) > 0)"

section \<open>visitorsService.js\<close>

text \<open>
  \<open>dataService.getCurrentVisitors\<close>: the customers marked inside, each with its
  \<open>currentVisitData\<close>, the first open visit of its customer id if there is one.
\<close>

definition getCurrentVisitors :: "state \<Rightarrow> (customer \<times> visit option) list" where
  "getCurrentVisitors s =
     map (\<lambda>c. (c, List.find (\<lambda>v. v_customerId v = customerId c \<and> exitTime v = None) (visits s)))
       (filter inside (customers s))"

text \<open>
  \<open>visitorsService.getCurrentVisitors\<close> adds the entry time of the visit data and sorts,
  most recent entry first; a visitor without visit data sorts as the epoch. The sort
  of the engine is stable, as \<^const>\<open>sort_key\<close> is.
\<close>

definition vs_entryTime :: "customer \<times> visit option \<Rightarrow> timestamp option" where
  "vs_entryTime x = map_option entryTime (snd x)"

definition vs_getCurrentVisitors :: "state \<Rightarrow> (customer \<times> visit option) list" where
  "vs_getCurrentVisitors s =
     sort_key (\<lambda>x. - (case vs_entryTime x of None \<Rightarrow> 0 | Some t \<Rightarrow> t)) (getCurrentVisitors s)"

definition getVisitorById :: "state \<Rightarrow> string \<Rightarrow> string + (customer \<times> visit option)" where
  "getVisitorById s cid =
     (if cid = [] then Inl ''Customer ID is required''
      else case List.find (\<lambda>x. customerId (fst x) = cid) (vs_getCurrentVisitors s) of
        None \<Rightarrow> Inl ''Visitor not found or not currently inside''
      | Some x \<Rightarrow> Inr x)"

text \<open>
  \<open>forceExitVisitor(customerId, reason)\<close>. Its \<open>catch\<close> block returns a failure without a
  \<open>type\<close>. The subscribers notified of the exit are outside the model; the arguments
  of the notification read \<open>personalInfo.firstName\<close> of the visitor after the visit is
  closed and the customer marked outside.
\<close>

definition forceExitVisitor ::
    "state \<Rightarrow> string \<Rightarrow> string \<Rightarrow> timestamp \<Rightarrow> outcome \<times> state" where
  "forceExitVisitor s cid reason now =
     (if cid = [] then (failure ''Customer ID is required'' None, s)
      else case getVisitorById s cid of
        Inl msg \<Rightarrow> (failure msg None, s)
      | Inr x \<Rightarrow>
        (let d = calculateDuration (vs_entryTime x) now
         in case List.find (\<lambda>v. v_customerId v = cid) (getCurrentVisits s) of
              None \<Rightarrow> (failure ''No active visit found'' None, s)
            | Some v \<Rightarrow>
              (case endVisit s (visitId v) now of
                 None \<Rightarrow> (failure NETWORK_ERROR None, s)
               | Some s1 \<Rightarrow>
                 (case updateCustomerVisitStatus s1 cid False None (Some now) of
                    None \<Rightarrow> (failure NETWORK_ERROR None, s1)
                  | Some s2 \<Rightarrow>
                    (case personalInfo (fst x) of
                       None \<Rightarrow> (failure NETWORK_ERROR None, s2)
                     | Some p \<Rightarrow>
                       (\<lparr> success = True, message = ''Visitor successfully exited'',
                          otype = Some force_exit, o_customer = Some (fst x),
                          o_visit = None, o_entryTime = None, o_exitTime = Some now,
                          o_duration = Some d, o_services = None, warnings = [],
                          isEmergencyOverride = False, overrideReason = Some reason \<rparr>,
                        s2))))))"

section \<open>statisticsService.js and the statistics of dataService.js\<close>

record visit_stats =
  totalVisits :: nat
  completedVisits :: nat
  currentlyInside :: nat
  totalDuration :: int
  averageDuration :: int

text \<open>
  \<open>getVisitStatsByDate\<close>. A duration of \<open>null\<close> counts as 0 (\<open>v.duration || 0\<close>), and
  \<open>Math.round\<close> is \<^const>\<open>round\<close>: the nearest integer, a half rounded upwards.
\<close>

definition getVisitStatsByDate :: "state \<Rightarrow> int \<Rightarrow> visit_stats" where
  "getVisitStatsByDate s d =
     (let vs = getVisitsByDate s d;
          completed = filter (\<lambda>v. exitTime v \<noteq> None) vs;
          total = (\<Sum>v\<leftarrow>completed. case duration v of None \<Rightarrow> 0 | Some m \<Rightarrow> m)
      in \<lparr> totalVisits = length vs,
           completedVisits = length completed,
           currentlyInside = length vs - length completed,
           totalDuration = total,
           averageDuration =
             (if length completed > 0 then round (rat_of_int total / rat_of_nat (length completed))
              else 0) \<rparr>)"

record hour_stats =
  entries :: nat
  exits :: nat

text \<open>
  \<open>getHourlyVisitStats\<close>: an object with the keys 0 to 23, here the list of its values
  in key order. \<open>getHours\<close> is the hour of the local time, which is \<open>tz\<close> milliseconds
  ahead of UTC.
\<close>

definition getHours :: "int \<Rightarrow> timestamp \<Rightarrow> nat" where
  "getHours tz t = nat (((t + tz) div (1000 * 60 * 60)) mod 24)"

definition count_entry :: "int \<Rightarrow> hour_stats list \<Rightarrow> visit \<Rightarrow> hour_stats list" where
  "count_entry tz hs v =
     (let h = getHours tz (entryTime v);
          hs1 = hs[h := (hs ! h)\<lparr>entries := entries (hs ! h) + 1\<rparr>]
      in case exitTime v of
           None \<Rightarrow> hs1
         | Some t \<Rightarrow> hs1[getHours tz t := (hs1 ! getHours tz t)
                          \<lparr>exits := exits (hs1 ! getHours tz t) + 1\<rparr>])"

definition getHourlyVisitStats :: "int \<Rightarrow> state \<Rightarrow> int \<Rightarrow> hour_stats list" where
  "getHourlyVisitStats tz s d =
     foldl (count_entry tz) (replicate 24 \<lparr> entries = 0, exits = 0 \<rparr>) (getVisitsByDate s d)"

record membership_stats =
  daily :: nat
  monthly :: nat
  annual :: nat

definition count_membership :: "state \<Rightarrow> membership_stats \<Rightarrow> visit \<Rightarrow> membership_stats" where
  "count_membership s st v =
     (case getCustomerById s (v_customerId v) of
        None \<Rightarrow> st
      | Some c \<Rightarrow>
        (case membership c of
           None \<Rightarrow> st
         | Some m \<Rightarrow>
             if mtype m = ''daily'' then st\<lparr>daily := daily st + 1\<rparr>
             else if mtype m = ''monthly'' then st\<lparr>monthly := monthly st + 1\<rparr>
             else if mtype m = ''annual'' then st\<lparr>annual := annual st + 1\<rparr>
             else st))"

definition getMembershipTypeStats :: "state \<Rightarrow> int \<Rightarrow> membership_stats" where
  "getMembershipTypeStats s d =
     foldl (count_membership s) \<lparr> daily = 0, monthly = 0, annual = 0 \<rparr> (getVisitsByDate s d)"

record peak_hour =
  hour :: nat
  ph_entries :: nat
  timeRange :: string

text \<open>
  \<open>calculatePeakHour\<close> walks the keys of the hourly statistics in ascending order and
  keeps the first hour whose entries exceed every earlier one.
\<close>

definition peak_step :: "hour_stats list \<Rightarrow> nat \<times> nat \<Rightarrow> nat \<Rightarrow> nat \<times> nat" where
  "peak_step hs acc h =
     (if entries (hs ! h) > snd acc then (h, entries (hs ! h)) else acc)"

definition calculatePeakHour :: "hour_stats list \<Rightarrow> peak_hour" where
  "calculatePeakHour hourlyStats =
     (let (peakHour, maxEntries) = foldl (peak_step hourlyStats) (0, 0) [0..<length hourlyStats]
      in \<lparr> hour = peakHour, ph_entries = maxEntries,
           timeRange = padStart 2 (CHR ''0'') (toString peakHour) @ '':00 - ''
                       @ padStart 2 (CHR ''0'') (toString (peakHour + 1)) @ '':00'' \<rparr>)"

record revenue =
  rb_daily :: rat
  rb_monthly :: rat
  rb_annual :: rat
  total :: int
  averagePerVisit :: int

text \<open>
  \<open>calculateDailyRevenue\<close>. The source computes in double precision; the model computes
  the same expressions in exact rational arithmetic.
\<close>

definition calculateDailyRevenue :: "membership_stats \<Rightarrow> revenue" where
  "calculateDailyRevenue membershipStats =
     (let rate_daily = (50 :: rat);
          rate_monthly = (500 :: rat) / 30;
          rate_annual = (5000 :: rat) / 365;
          b_daily = rat_of_nat (daily membershipStats) * rate_daily;
          b_monthly = rat_of_nat (monthly membershipStats) * rate_monthly;
          b_annual = rat_of_nat (annual membershipStats) * rate_annual;
          t = 0 + b_daily + b_monthly + b_annual;
          n = daily membershipStats + monthly membershipStats + annual membershipStats
      in \<lparr> rb_daily = b_daily, rb_monthly = b_monthly, rb_annual = b_annual,
           total = round t,
           averagePerVisit = (if n > 0 then round (t / rat_of_nat n) else 0) \<rparr>)"

text \<open>The \<open>overview\<close> and \<open>revenue\<close> parts of \<open>getDailyStatistics\<close> for a date.\<close>

definition dailyOverview :: "state \<Rightarrow> int \<Rightarrow> visit_stats" where
  "dailyOverview s d = getVisitStatsByDate s d"

definition dailyRevenue :: "state \<Rightarrow> int \<Rightarrow> revenue" where
  "dailyRevenue s d = calculateDailyRevenue (getMembershipTypeStats s d)"

definition dailyPeakHour :: "int \<Rightarrow> state \<Rightarrow> int \<Rightarrow> peak_hour" where
  "dailyPeakHour tz s d = calculatePeakHour (getHourlyVisitStats tz s d)"

section \<open>The visit lifecycle as a transition system, and notions of the properties\<close>

text \<open>
  The mutating operations of the front desk. Each is applied at an instant, and the
  state after a sequence of operations is the left fold over the sequence.
\<close>

datatype operation =
    Scan string "string list option"
  | ManualEntryExit string string "string list option"
  | EmergencyOverride string string
  | ForceExit string string
  | Register customer_data

fun apply_op :: "calendar \<Rightarrow> state \<Rightarrow> operation \<times> timestamp \<Rightarrow> state" where
  "apply_op cal s (Scan barcode svcs, now) = snd (processBarcodeEntry cal s barcode svcs now)"
| "apply_op cal s (ManualEntryExit cid action svcs, now) = snd (manualEntryExit s cid action svcs now)"
| "apply_op cal s (EmergencyOverride cid reason, now) = snd (emergencyOverride s cid reason now)"
| "apply_op cal s (ForceExit cid reason, now) = snd (forceExitVisitor s cid reason now)"
| "apply_op cal s (Register cd, now) = snd (registerCustomer s cd now)"

definition run :: "calendar \<Rightarrow> state \<Rightarrow> (operation \<times> timestamp) list \<Rightarrow> state" where
  "run cal s ops = foldl (apply_op cal) s ops"

text \<open>The number of visit records of a customer id that have no exit time.\<close>

definition openCount :: "state \<Rightarrow> string \<Rightarrow> nat" where
  "openCount s cid = length (filter (\<lambda>v. v_customerId v = cid \<and> exitTime v = None) (visits s))"

text \<open>
  The equivalence between the flag of a customer and the ledger: the customer is marked
  inside if and only if exactly one visit of the customer is open.
\<close>

definition equivalence :: "state \<Rightarrow> bool" where
  "equivalence s \<longleftrightarrow> (\<forall>c \<in> set (customers s). inside c \<longleftrightarrow> openCount s (customerId c) = 1)"

text \<open>
  A well-formed ledger: customer ids are pairwise distinct; visit ids are pairwise
  distinct and each is an id that the visit counter has issued already; no two open
  visits have the same customer id; and the customer ids with an open visit are exactly
  the ids of the customers marked inside.
\<close>

definition openIds :: "state \<Rightarrow> string list" where
  "openIds s = map v_customerId (getCurrentVisits s)"

definition insideIds :: "state \<Rightarrow> string list" where
  "insideIds s = map customerId (filter inside (customers s))"

definition ledger_ok :: "state \<Rightarrow> bool" where
  "ledger_ok s \<longleftrightarrow>
     distinct (map customerId (customers s))
     \<and> distinct (map visitId (visits s))
     \<and> (\<forall>v \<in> set (visits s). visitId v \<in> set (map mkVisitId [0..<nextVisitId s]))
     \<and> distinct (openIds s)
     \<and> set (openIds s) = set (insideIds s)"

text \<open>Reading a decimal numeral back: the inverse of \<^const>\<open>toString\<close>.\<close>

definition digit_val :: "char \<Rightarrow> nat" where
  "digit_val c = of_char c - 48"

definition fromDigits :: "string \<Rightarrow> nat" where
  "fromDigits s = foldl (\<lambda>a c. 10 * a + digit_val c) 0 s"

text \<open>
  A visit counts in the membership breakdown when its customer is found, has a
  membership, and the membership type is one of the three keys of the breakdown.
\<close>

definition recognized :: "state \<Rightarrow> visit \<Rightarrow> bool" where
  "recognized s v =
     (case getCustomerById s (v_customerId v) of
        None \<Rightarrow> False
      | Some c \<Rightarrow> (case membership c of
          None \<Rightarrow> False
        | Some m \<Rightarrow> mtype m \<in> {''daily'', ''monthly'', ''annual''}))"

text \<open>The sum that \<open>calculateDailyRevenue\<close> rounds, and the number it divides by.\<close>

definition revenueSum :: "membership_stats \<Rightarrow> rat" where
  "revenueSum ms = rat_of_nat (daily ms) * 50 + rat_of_nat (monthly ms) * (500 / 30)
                   + rat_of_nat (annual ms) * (5000 / 365)"

definition breakdownCount :: "membership_stats \<Rightarrow> nat" where
  "breakdownCount ms = daily ms + monthly ms + annual ms"

section \<open>Example states\<close>

text \<open>
  Two local calendars. In the first no clock change falls into the days at hand. In the
  second the clocks go forward one hour at the instant \<open>T\<close>: from an instant before
  \<open>T\<close>, the same local time of day \<open>n\<close> days later, if past the change, is reached an
  hour earlier. Cairo is such a zone in April 2026: the change is on the 24th at
  midnight local time, the instant \<open>spring_change\<close>, and \<open>spring_noon\<close> is the 20th at
  12:00 UTC.
\<close>

definition plain_days :: calendar where
  "plain_days t n = t + n * msPerDay"




text \<open>
  A visit opened at 23:00 UTC of day 0, and a ledger that holds it. 95 minutes later it
  is 00:35 of day 1.
\<close>

definition late_visit :: visit where
  "late_visit = \<lparr> visitId = ''visit001'', v_customerId = ''00000001'', entryTime = 82800000,
     exitTime = None, duration = None, services = [''gym''], date = 0 \<rparr>"

definition late_state :: state where
  "late_state = \<lparr> customers = [], visits = [late_visit], nextVisitId = 2, scanHistory = [] \<rparr>"

text \<open>
  Members for the scenarios, at the instant \<open>now = 1000 * msPerDay\<close>: an active monthly
  member whose membership ends in 30 days, and a member whose membership ended
  yesterday. Both are outside.
\<close>

definition outside :: current_visit where
  "outside = \<lparr> isInside = False, cv_entryTime = None, cv_exitTime = None \<rparr>"

definition info :: "string \<Rightarrow> personal_info" where
  "info name = \<lparr> firstName = name, lastName = ''Member'', email = ''m@gym.eg'',
     phone = ''010-555-0100'', dateOfBirth = Missing \<rparr>"

definition member :: "string \<Rightarrow> string \<Rightarrow> string \<Rightarrow> date_input \<Rightarrow> customer" where
  "member cid ty st e =
     \<lparr> customerId = cid, personalInfo = Some (info ''A''),
       membership = Some \<lparr> mtype = ty, startDate = Instant 0, endDate = e, status = st,
                           mservices = [''gym''] \<rparr>,
       currentVisit = Some outside \<rparr>"

definition customerC :: customer where
  "customerC = member ''00000003'' ''monthly'' ''active'' (Instant (1030 * msPerDay))"

definition customerD :: customer where
  "customerD = member ''00000004'' ''monthly'' ''active'' (Instant (999 * msPerDay))"

definition desk :: state where
  "desk = init_state [customerC, customerD] []"

text \<open>
  A day with five visits: two enter in hour 9, one in hour 12 and two in hour 17 (UTC),
  so hours 9 and 17 share the maximal number of entries.
\<close>

definition visit_at :: "string \<Rightarrow> string \<Rightarrow> int \<Rightarrow> visit" where
  "visit_at vid cid h =
     \<lparr> visitId = vid, v_customerId = cid, entryTime = 1000 * msPerDay + h * (1000 * 60 * 60),
       exitTime = Some (1000 * msPerDay + h * (1000 * 60 * 60) + 45 * msPerMinute),
       duration = Some 45, services = [''gym''], date = 1000 \<rparr>"

definition busy_day :: state where
  "busy_day = init_state [customerC, customerD]
     [visit_at ''visit001'' ''00000003'' 17, visit_at ''visit002'' ''00000004'' 9,
      visit_at ''visit003'' ''00000003'' 12, visit_at ''visit004'' ''00000004'' 17,
      visit_at ''visit005'' ''00000003'' 9]"

text \<open>
  Two days of two visits each, on day 1000. On the first a daily and a monthly member
  visit. On the second a daily member visits, and a customer registered without a
  membership who was let in by hand.
\<close>

definition customerX :: customer where
  "customerX = member ''00000005'' ''daily'' ''active'' (Instant (1001 * msPerDay))"

definition customerY :: customer where
  "customerY = \<lparr> customerId = ''00000006'', personalInfo = Some (info ''Y''),
                  membership = None, currentVisit = Some outside \<rparr>"

definition mixed_day :: state where
  "mixed_day = init_state [customerX, customerC]
     [visit_at ''visit001'' ''00000005'' 9, visit_at ''visit002'' ''00000003'' 10]"

definition guest_day :: state where
  "guest_day = init_state [customerX, customerY]
     [visit_at ''visit001'' ''00000005'' 9, visit_at ''visit002'' ''00000006'' 10]"

text \<open>
  Members for the eligibility checks, all outside, at the instant
  \<open>now = 1000 * msPerDay\<close>: one whose status is \<open>expired\<close> while the end date is 30 days
  ahead, one whose end date does not parse, one whose membership ends at this very
  instant, and a suspended one whose membership ends in exactly seven days. And at the
  instant \<open>spring_noon\<close>: a member whose membership ends seven times 24 hours later, and
  one whose membership ends 167 hours later.
\<close>

definition customerE :: customer where
  "customerE = member ''00000007'' ''monthly'' ''expired'' (Instant (1030 * msPerDay))"

definition customerM :: customer where
  "customerM = member ''00000008'' ''monthly'' ''active'' Malformed"

definition customerN :: customer where
  "customerN = member ''00000009'' ''monthly'' ''active'' (Instant (1000 * msPerDay))"

definition customerS :: customer where
  "customerS = member ''00000010'' ''monthly'' ''suspended'' (Instant (1007 * msPerDay))"



definition lobby :: state where
  "lobby = init_state [customerE, customerM, customerN, customerS] []"

text \<open>
  The front desk after customer C has scanned in at the instant \<open>1000 * msPerDay\<close>.
\<close>

definition after_scan :: state where
  "after_scan = snd (processBarcodeEntry plain_days desk ''00000003'' None (1000 * msPerDay))"

text \<open>
  A morning at the front desk: customer C scans in, a newcomer is registered, customer D
  is let in by hand, the newcomer enters by emergency override, and an hour later C
  scans out and D is forced out.
\<close>

definition newcomer :: customer_data where
  "newcomer = \<lparr> cd_customerId = ''00000011'', cd_personalInfo = Some (info ''New''),
     cd_membership = Some \<lparr> mtype = ''daily'', startDate = Instant (1000 * msPerDay),
       endDate = Instant (1001 * msPerDay), status = ''active'', mservices = [''gym''] \<rparr> \<rparr>"

definition morning :: "(operation \<times> timestamp) list" where
  "morning =
     [(Scan ''00000003'' None, 1000 * msPerDay),
      (Register newcomer, 1000 * msPerDay + 60000),
      (ManualEntryExit ''00000004'' ''entry'' (Some [''spa'']), 1000 * msPerDay + 120000),
      (EmergencyOverride ''00000011'' ''fire drill'', 1000 * msPerDay + 180000),
      (Scan ''00000003'' None, 1000 * msPerDay + 3600000),
      (ForceExit ''00000004'' ''closing'', 1000 * msPerDay + 3700000)]"

text \<open>
  Four seeds in which the equivalence holds. In the first the only visit record, a
  closed one, has the id \<open>visit002\<close>, which the counter that starts at the number of
  records plus one issues next. In the second a customer is listed twice. In the third
  a customer who is outside has two open visits. In the fourth an open visit belongs
  to a customer id that is not registered yet.
\<close>

definition seed_ids :: state where
  "seed_ids = init_state [customerC] [visit_at ''visit002'' ''00000003'' 9]"

definition seed_twice :: state where
  "seed_twice = init_state [customerC, customerC] []"

definition seed_two_open :: state where
  "seed_two_open = init_state [customerC]
     [(visit_at ''visit001'' ''00000003'' 9)\<lparr>exitTime := None, duration := None\<rparr>,
      (visit_at ''visit002'' ''00000003'' 10)\<lparr>exitTime := None, duration := None\<rparr>]"

definition seed_orphan :: state where
  "seed_orphan = init_state []
     [(visit_at ''visit001'' ''00000011'' 9)\<lparr>exitTime := None, duration := None\<rparr>]"

section \<open>Properties\<close>

subsection \<open>Lists\<close>

lemma find_update_first:
  "List.find P xs = Some v \<Longrightarrow> P (f v) \<Longrightarrow> List.find P (update_first P f xs) = Some (f v)"
  by (induction xs) (auto split: if_splits)

lemma find_key: "List.find (\<lambda>x. key x = k) xs = Some x \<Longrightarrow> key x = k \<and> x \<in> set xs"
  by (auto simp: find_Some_iff)

lemma find_in_set: "List.find P xs = Some x \<Longrightarrow> P x \<and> x \<in> set xs"
  by (auto simp: find_Some_iff)

lemma map_absent:
  "k \<notin> set (map key xs) \<Longrightarrow> map (\<lambda>x. if key x = k then f x else x) xs = xs"
  by (induction xs) auto

lemma update_first_distinct:
  "distinct (map key xs) \<Longrightarrow>
     update_first (\<lambda>x. key x = k) f xs = map (\<lambda>x. if key x = k then f x else x) xs"
proof (induction xs)
  case Nil
  then show ?case by simp
next
  case (Cons x xs)
  show ?case
  proof (cases "key x = k")
    case True
    with Cons.prems have "k \<notin> set (map key xs)" by auto
    then show ?thesis using True by (simp add: map_absent)
  next
    case False
    with Cons show ?thesis by simp
  qed
qed

lemma distinct_count:
  "distinct zs \<Longrightarrow> length (filter (\<lambda>y. y = x) zs) = (if x \<in> set zs then 1 else 0)"
  by (induction zs) auto

subsection \<open>Visit ids\<close>

lemma digit_val_digit_char: "d < 10 \<Longrightarrow> digit_val (digit_char d) = d"
proof -
  assume "d < 10"
  then have "d \<in> {0, 1, 2, 3, 4, 5, 6, 7, 8, 9}" by auto
  then show ?thesis
    by (auto simp: digit_val_def digit_char_def)
qed

lemma fromDigits_snoc: "fromDigits (s @ [c]) = 10 * fromDigits s + digit_val c"
  by (simp add: fromDigits_def)

lemma fromDigits_toString: "fromDigits (toString n) = n"
proof (induction n rule: toString.induct)
  case (1 n)
  show ?case
  proof (cases "n < 10")
    case True
    then have "toString n = [digit_char n]" by (simp add: toString.simps)
    then show ?thesis using True by (simp add: fromDigits_def digit_val_digit_char)
  next
    case False
    then have "toString n = toString (n div 10) @ [digit_char (n mod 10)]"
      by (subst toString.simps) simp
    then show ?thesis using False "1.IH"
      by (simp add: fromDigits_snoc digit_val_digit_char)
  qed
qed

lemma foldl_zeros: "foldl (\<lambda>a c. 10 * a + digit_val c) 0 (replicate k (CHR ''0'')) = 0"
  by (induction k) (simp_all add: digit_val_def)

lemma fromDigits_padStart: "fromDigits (padStart k (CHR ''0'') s) = fromDigits s"
  by (simp add: fromDigits_def padStart_def foldl_zeros)

lemma mkVisitId_number: "fromDigits (drop 5 (mkVisitId n)) = n"
  by (simp add: mkVisitId_def fromDigits_padStart fromDigits_toString)

lemma mkVisitId_inj: "mkVisitId m = mkVisitId n \<Longrightarrow> m = n"
  by (metis mkVisitId_number)

subsection \<open>State projections of the primitive operations\<close>

lemma addVisit_state:
  "snd (addVisit s cid t svcs d) =
     s\<lparr>visits := visits s @ [fst (addVisit s cid t svcs d)], nextVisitId := nextVisitId s + 1\<rparr>"
  by (simp add: addVisit_def Let_def)

lemma addVisit_fst:
  "fst (addVisit s cid t svcs d) =
     \<lparr> visitId = mkVisitId (nextVisitId s), v_customerId = cid, entryTime = t,
       exitTime = None, duration = None,
       services = (case svcs of None \<Rightarrow> [] | Some l \<Rightarrow> l), date = d \<rparr>"
  by (simp add: addVisit_def Let_def)

lemma updateCustomerVisitStatus_Some:
  "updateCustomerVisitStatus s cid b e x = Some s' \<Longrightarrow>
     s' = s\<lparr>customers := update_first (\<lambda>c. customerId c = cid)
            (\<lambda>c. c\<lparr>currentVisit := Some \<lparr> isInside = b, cv_entryTime = e, cv_exitTime = x \<rparr>\<rparr>)
            (customers s)\<rparr>"
  by (auto simp: updateCustomerVisitStatus_def split: option.splits)

lemma updateCustomerVisitStatus_None:
  "updateCustomerVisitStatus s cid b e x = None \<longleftrightarrow> getCustomerById s cid = None"
  by (auto simp: updateCustomerVisitStatus_def split: option.splits)

lemma endVisit_Some:
  "endVisit s vid t = Some s' \<Longrightarrow>
     s' = s\<lparr>visits := update_first (\<lambda>v. visitId v = vid)
            (\<lambda>v. v\<lparr>exitTime := Some t, duration := Some ((t - entryTime v) div msPerMinute)\<rparr>)
            (visits s)\<rparr>"
  by (auto simp: endVisit_def split: option.splits)

lemma endVisit_None: "endVisit s vid t = None \<longleftrightarrow> getVisitById s vid = None"
  by (auto simp: endVisit_def split: option.splits)

lemma addToScanHistory_state:
  "addToScanHistory s e = s\<lparr>scanHistory := scanHistory (addToScanHistory s e)\<rparr>"
  by (simp add: addToScanHistory_def Let_def)

text \<open>The state after \<open>processEntry\<close>, up to the scan history.\<close>

lemma processEntry_state:
  assumes "getCustomerById s (customerId c) \<noteq> None"
  shows "\<exists>h. snd (processEntry s c svcs now) =
     s\<lparr>visits := visits s @ [\<lparr> visitId = mkVisitId (nextVisitId s), v_customerId = customerId c,
                   entryTime = now, exitTime = None, duration = None,
                   services = (case svcs of None \<Rightarrow> [''gym''] | Some l \<Rightarrow> l),
                   date = now div msPerDay \<rparr>],
       nextVisitId := nextVisitId s + 1,
       customers := update_first (\<lambda>x. customerId x = customerId c)
            (\<lambda>x. x\<lparr>currentVisit := Some \<lparr> isInside = True, cv_entryTime = Some now,
                                           cv_exitTime = None \<rparr>\<rparr>) (customers s),
       scanHistory := h\<rparr>"
proof -
  let ?a = "addVisit s (customerId c) now
              (Some (case svcs of None \<Rightarrow> [''gym''] | Some l \<Rightarrow> l)) (now div msPerDay)"
  obtain nv s1 where a: "?a = (nv, s1)" by (cases ?a)
  have s1: "s1 = s\<lparr>visits := visits s @ [nv], nextVisitId := nextVisitId s + 1\<rparr>"
    using addVisit_state [of s "customerId c" now
        "Some (case svcs of None \<Rightarrow> [''gym''] | Some l \<Rightarrow> l)" "now div msPerDay"]
    by (simp add: a)
  have nv: "nv = \<lparr> visitId = mkVisitId (nextVisitId s), v_customerId = customerId c,
                   entryTime = now, exitTime = None, duration = None,
                   services = (case svcs of None \<Rightarrow> [''gym''] | Some l \<Rightarrow> l),
                   date = now div msPerDay \<rparr>"
    using addVisit_fst [of s "customerId c" now
        "Some (case svcs of None \<Rightarrow> [''gym''] | Some l \<Rightarrow> l)" "now div msPerDay"]
    by (simp add: a)
  have "getCustomerById s1 (customerId c) \<noteq> None"
    using assms s1 by (simp add: getCustomerById_def)
  then obtain s2 where u: "updateCustomerVisitStatus s1 (customerId c) True (Some now) None = Some s2"
    using updateCustomerVisitStatus_None [of s1 "customerId c" True "Some now" None] by auto
  note s2 = updateCustomerVisitStatus_Some [OF u]
  show ?thesis
  proof (cases "personalInfo c")
    case None
    then have "snd (processEntry s c svcs now) = s2"
      using a u by (simp add: processEntry_def)
    then show ?thesis using s2 s1 nv
      by (intro exI [of _ "scanHistory s"]) simp
  next
    case (Some p)
    then obtain e where "snd (processEntry s c svcs now) = addToScanHistory s2 e"
      using a u by (simp add: processEntry_def)
    then have "snd (processEntry s c svcs now) =
        s2\<lparr>scanHistory := scanHistory (addToScanHistory s2 e)\<rparr>"
      using addToScanHistory_state [of s2 e] by simp
    then show ?thesis using s2 s1 nv
      by (intro exI [of _ "scanHistory (addToScanHistory s2 e)"]) simp
  qed
qed

text \<open>The state after \<open>processExit\<close>, up to the scan history.\<close>

lemma processExit_unchanged:
  "\<not> inside c \<or> List.find (\<lambda>v. v_customerId v = customerId c) (getCurrentVisits s) = None
     \<Longrightarrow> snd (processExit s c now) = s"
proof (cases "inside c")
  case True
  assume "\<not> inside c \<or> List.find (\<lambda>v. v_customerId v = customerId c) (getCurrentVisits s) = None"
  with True have "List.find (\<lambda>v. v_customerId v = customerId c) (getCurrentVisits s) = None"
    by simp
  with True show ?thesis by (simp add: processExit_def)
next
  case False
  then show ?thesis by (simp add: processExit_def)
qed

lemma getCurrentVisits_find:
  assumes "List.find (\<lambda>v. v_customerId v = cid) (getCurrentVisits s) = Some v"
  shows "v \<in> set (visits s)" and "exitTime v = None" and "v_customerId v = cid"
    and "getVisitById s (visitId v) \<noteq> None"
proof -
  from find_in_set [OF assms] show v: "v \<in> set (visits s)" and "exitTime v = None"
    and "v_customerId v = cid"
    by (auto simp: getCurrentVisits_def)
  from v show "getVisitById s (visitId v) \<noteq> None"
    by (auto simp: getVisitById_def find_None_iff)
qed

lemma processExit_state:
  assumes "inside c"
    and "List.find (\<lambda>v. v_customerId v = customerId c) (getCurrentVisits s) = Some v"
    and "getCustomerById s (customerId c) \<noteq> None"
  shows "\<exists>h. snd (processExit s c now) =
     s\<lparr>visits := update_first (\<lambda>x. visitId x = visitId v)
            (\<lambda>x. x\<lparr>exitTime := Some now,
                    duration := Some ((now - entryTime x) div msPerMinute)\<rparr>) (visits s),
       customers := update_first (\<lambda>x. customerId x = customerId c)
            (\<lambda>x. x\<lparr>currentVisit := Some \<lparr> isInside = False, cv_entryTime = None,
                                           cv_exitTime = Some now \<rparr>\<rparr>) (customers s),
       scanHistory := h\<rparr>"
proof -
  from getCurrentVisits_find(4) [OF assms(2)]
  obtain s1 where e: "endVisit s (visitId v) now = Some s1"
    using endVisit_None [of s "visitId v" now] by auto
  note s1 = endVisit_Some [OF e]
  have "getCustomerById s1 (customerId c) \<noteq> None"
    using assms(3) s1 by (simp add: getCustomerById_def)
  then obtain s2 where
    u: "updateCustomerVisitStatus s1 (customerId c) False None (Some now) = Some s2"
    using updateCustomerVisitStatus_None [of s1 "customerId c" False None "Some now"] by auto
  note s2 = updateCustomerVisitStatus_Some [OF u]
  show ?thesis
  proof (cases "personalInfo c")
    case None
    then have "snd (processExit s c now) = s2"
      using assms(1,2) e u by (simp add: processExit_def)
    then show ?thesis using s2 s1
      by (intro exI [of _ "scanHistory s"]) simp
  next
    case (Some p)
    then obtain en where "snd (processExit s c now) = addToScanHistory s2 en"
      using assms(1,2) e u by (simp add: processExit_def Let_def)
    then have "snd (processExit s c now) =
        s2\<lparr>scanHistory := scanHistory (addToScanHistory s2 en)\<rparr>"
      using addToScanHistory_state [of s2 en] by simp
    then show ?thesis using s2 s1
      by (intro exI [of _ "scanHistory (addToScanHistory s2 en)"]) simp
  qed
qed

lemma cs_getCustomerById_Inr:
  assumes "cs_getCustomerById s cid = Inr c"
  shows "getCustomerById s cid = Some c" and "customerId c = cid" and "cid \<noteq> []"
proof -
  from assms show g: "getCustomerById s cid = Some c" and "cid \<noteq> []"
    by (auto simp: cs_getCustomerById_def split: if_splits option.splits)
  from g show "customerId c = cid"
    using find_key [of customerId cid "customers s" c] by (simp add: getCustomerById_def)
qed

lemma emergencyOverride_unchanged:
  "cid = [] \<or> reason = [] \<or> cs_getCustomerById s cid = Inl msg
     \<Longrightarrow> snd (emergencyOverride s cid reason now) = s"
proof -
  assume "cid = [] \<or> reason = [] \<or> cs_getCustomerById s cid = Inl msg"
  then consider "cid = [] \<or> reason = []"
    | "cid \<noteq> []" "reason \<noteq> []" "cs_getCustomerById s cid = Inl msg" by blast
  then show ?thesis
  proof cases
    case 1
    then show ?thesis by (simp add: emergencyOverride_def)
  next
    case 2
    then show ?thesis by (simp add: emergencyOverride_def)
  qed
qed

lemma emergencyOverride_state:
  assumes "cid \<noteq> []" and "reason \<noteq> []" and "cs_getCustomerById s cid = Inr c"
  shows "\<exists>h. snd (emergencyOverride s cid reason now) =
     (snd (if inside c then processExit s c now
           else processEntry s c (Some [''gym'', ''spa'']) now))\<lparr>scanHistory := h\<rparr>"
proof -
  let ?p = "if inside c then processExit s c now
            else processEntry s c (Some [''gym'', ''spa'']) now"
  obtain r s1 where p: "?p = (r, s1)" by (cases ?p)
  have eq: "emergencyOverride s cid reason now =
     (if success r then
        (case personalInfo c of
           None \<Rightarrow> (caught, s1)
         | Some p \<Rightarrow>
             (r\<lparr>isEmergencyOverride := True, overrideReason := Some reason\<rparr>,
              addToScanHistory s1
                \<lparr> sh_customerId = customerId c, sh_customerName = customerName p,
                  sh_action = ''emergency_'' @ (if otype r = Some exit then ''exit''
                                                else ''entry''),
                  sh_timestamp = now, sh_isEmergencyOverride = True \<rparr>))
      else (r, s1))"
    using assms p by (simp add: emergencyOverride_def)
  show ?thesis
  proof (cases "success r \<and> personalInfo c \<noteq> None")
    case True
    then obtain en where "snd (emergencyOverride s cid reason now) = addToScanHistory s1 en"
      using eq by auto
    then show ?thesis using addToScanHistory_state [of s1 en] p
      by (intro exI [of _ "scanHistory (addToScanHistory s1 en)"]) simp
  next
    case False
    then have "snd (emergencyOverride s cid reason now) = s1"
      using eq by (auto split: option.splits)
    then show ?thesis using p
      by (intro exI [of _ "scanHistory s1"]) simp
  qed
qed

subsection \<open>Outcome types\<close>

lemma processEntry_otype:
  "otype (fst (processEntry s c svcs now)) \<in> {Some entry, Some system_error}"
proof -
  let ?a = "addVisit s (customerId c) now
              (Some (case svcs of None \<Rightarrow> [''gym''] | Some l \<Rightarrow> l)) (now div msPerDay)"
  obtain nv s1 where a: "?a = (nv, s1)" by (cases ?a)
  show ?thesis
  proof (cases "updateCustomerVisitStatus s1 (customerId c) True (Some now) None")
    case None
    then show ?thesis using a by (simp add: processEntry_def caught_def failure_def)
  next
    case (Some s2)
    then show ?thesis using a
      by (cases "personalInfo c") (simp_all add: processEntry_def caught_def failure_def)
  qed
qed

lemma processExit_otype:
  "otype (fst (processExit s c now)) \<in>
     {Some exit, Some not_inside, Some no_active_visit, Some system_error}"
proof (cases "inside c")
  case False
  then show ?thesis by (simp add: processExit_def failure_def)
next
  case True
  show ?thesis
  proof (cases "List.find (\<lambda>v. v_customerId v = customerId c) (getCurrentVisits s)")
    case None
    then show ?thesis using True by (simp add: processExit_def failure_def)
  next
    case (Some v)
    show ?thesis
    proof (cases "endVisit s (visitId v) now")
      case None
      then show ?thesis using True Some by (simp add: processExit_def caught_def failure_def)
    next
      case e: (Some s1)
      show ?thesis
      proof (cases "updateCustomerVisitStatus s1 (customerId c) False None (Some now)")
        case None
        then show ?thesis using True Some e
          by (simp add: processExit_def caught_def failure_def)
      next
        case u: (Some s2)
        then show ?thesis using True Some e
          by (cases "personalInfo c")
            (simp_all add: processExit_def caught_def failure_def Let_def)
      qed
    qed
  qed
qed

subsection \<open>Rejected scans\<close>

text \<open>
  C8. A scan whose outcome is \<open>validation_error\<close>, \<open>customer_not_found\<close> or
  \<open>subscription_invalid\<close> leaves the whole state as it was: no visit record is created
  or closed and no customer is changed.
\<close>

theorem rejected_scan_no_mutation:
  assumes "otype (fst (processBarcodeEntry cal s barcode svcs now)) \<in>
     {Some validation_error, Some customer_not_found, Some subscription_invalid}"
  shows "snd (processBarcodeEntry cal s barcode svcs now) = s"
proof (cases "validateBarcode barcode")
  case (Inl msg)
  then show ?thesis by (simp add: processBarcodeEntry_def)
next
  case (Inr u)
  show ?thesis
  proof (cases "getCustomerByBarcode s barcode")
    case (Inl msg)
    then show ?thesis using Inr by (simp add: processBarcodeEntry_def)
  next
    case c: (Inr c)
    show ?thesis
    proof (cases "vr_isValid (validateSubscription cal s (customerId c) now)")
      case False
      then show ?thesis using Inr c by (simp add: processBarcodeEntry_def Let_def)
    next
      case True
      let ?sv = "Some (case svcs of None \<Rightarrow> [''gym''] | Some l \<Rightarrow> l)"
      have "processBarcodeEntry cal s barcode svcs now =
          (if inside c then processExit s c now else processEntry s c ?sv now)"
        using Inr c True by (simp add: processBarcodeEntry_def Let_def)
      then have "otype (fst (processBarcodeEntry cal s barcode svcs now)) \<in>
          {Some exit, Some not_inside, Some no_active_visit, Some system_error, Some entry}"
        using processExit_otype [of s c now] processEntry_otype [of s c ?sv now] by auto
      with assms show ?thesis by auto
    qed
  qed
qed

lemma desk_lookup:
  "getCustomerById desk ''00000004'' = Some customerD"
  by (simp add: getCustomerById_def desk_def init_state_def customerC_def customerD_def member_def)

lemma barcode_D: "validateBarcode ''00000004'' = Inr ()"
  by (simp add: validateBarcode_def validateCustomerId_def trim_def is_space_def is_digit_def
      CUSTOMER_ID_MIN_LENGTH_def CUSTOMER_ID_MAX_LENGTH_def)

lemma scan_D:
  "fst (processBarcodeEntry plain_days desk ''00000004'' None (1000 * msPerDay)) =
     (failure ''Membership has expired'' (Some subscription_invalid))\<lparr>o_customer := Some customerD\<rparr>"
proof -
  have t: "trim ''00000004'' = ''00000004''" by (simp add: trim_def is_space_def)
  have g: "getCustomerByBarcode desk ''00000004'' = Inr customerD"
    by (simp add: getCustomerByBarcode_def barcode_D t cs_getCustomerById_def desk_lookup)
  have i: "customerId customerD = ''00000004''" by (simp add: customerD_def member_def)
  have v: "validateSubscription plain_days desk ''00000004'' (1000 * msPerDay) =
      \<lparr> vr_success = True, vr_isValid = False, vr_message = ''Membership has expired'',
        vr_warnings = [] \<rparr>"
    by (simp add: validateSubscription_def desk_lookup customerD_def member_def
        isSubscriptionExpired_def isSubscriptionExpiringSoon_def msPerDay_def
        MEMBERSHIP_STATUS_SUSPENDED_def Let_def)
  show ?thesis
    by (simp add: processBarcodeEntry_def barcode_D g i v failure_def)
qed

theorem rejected_scan_no_mutation_witness:
  "otype (fst (processBarcodeEntry plain_days desk ''00000004'' None (1000 * msPerDay)))
     = Some subscription_invalid
   \<and> snd (processBarcodeEntry plain_days desk ''00000004'' None (1000 * msPerDay)) = desk"
proof -
  have t: "otype (fst (processBarcodeEntry plain_days desk ''00000004'' None (1000 * msPerDay)))
     = Some subscription_invalid"
    by (simp add: scan_D failure_def)
  then show ?thesis
    using rejected_scan_no_mutation [of plain_days desk "''00000004''" None "1000 * msPerDay"] by simp
qed

subsection \<open>Visit duration\<close>

text \<open>
  C5. The duration stored when a visit is closed at \<open>T1\<close> is the whole number of minutes
  between its entry time and \<open>T1\<close>, \<open>floor((T1 - T0) / 60 s)\<close>; \<open>calculateDuration\<close>
  computes the same; and 95 minutes after entry the stored duration is 95.
\<close>

theorem endVisit_duration:
  assumes "getVisitById s vid = Some v"
  shows "\<exists>s' v'. endVisit s vid T1 = Some s' \<and> getVisitById s' vid = Some v'
           \<and> entryTime v' = entryTime v \<and> exitTime v' = Some T1
           \<and> duration v' = Some ((T1 - entryTime v) div (60 * 1000))
           \<and> calculateDuration (Some (entryTime v)) T1 = (T1 - entryTime v) div (60 * 1000)
           \<and> (T1 = entryTime v + 95 * (60 * 1000) \<longrightarrow> duration v' = Some 95)"
proof -
  let ?P = "\<lambda>v. visitId v = vid"
  let ?f = "\<lambda>v. v\<lparr>exitTime := Some T1, duration := Some ((T1 - entryTime v) div msPerMinute)\<rparr>"
  from assms have fnd: "List.find ?P (visits s) = Some v"
    by (simp add: getVisitById_def)
  then have "?P v" by (auto simp: find_Some_iff)
  then have "?P (?f v)" by simp
  with fnd have "List.find ?P (update_first ?P ?f (visits s)) = Some (?f v)"
    by (rule find_update_first)
  moreover have "endVisit s vid T1 = Some (s\<lparr>visits := update_first ?P ?f (visits s)\<rparr>)"
    using assms by (simp add: endVisit_def)
  ultimately show ?thesis
    by (simp add: getVisitById_def calculateDuration_def msPerMinute_def)
qed

theorem endVisit_duration_witness:
  "getVisitById late_state ''visit001'' = Some late_visit
   \<and> (88500000 :: int) = entryTime late_visit + 95 * (60 * 1000)
   \<and> 88500000 div msPerDay \<noteq> entryTime late_visit div msPerDay
   \<and> (\<exists>s' v'. endVisit late_state ''visit001'' 88500000 = Some s'
         \<and> getVisitById s' ''visit001'' = Some v' \<and> duration v' = Some 95)
   \<and> map duration (visits (run plain_days desk
         [(Scan ''00000003'' None, 1000 * msPerDay + 82800000),
          (Scan ''00000003'' None, 1000 * msPerDay + 88500000)])) = [Some 95]"
proof -
  have r: "map duration (visits (run plain_days desk
         [(Scan ''00000003'' None, 1000 * msPerDay + 82800000),
          (Scan ''00000003'' None, 1000 * msPerDay + 88500000)])) = [Some 95]"
    by code_simp
  have h: "getVisitById late_state ''visit001'' = Some late_visit"
    by (simp add: getVisitById_def late_state_def late_visit_def)
  have t: "(88500000 :: int) = entryTime late_visit + 95 * (60 * 1000)"
    by (simp add: late_visit_def)
  have d: "(88500000 :: int) div msPerDay \<noteq> entryTime late_visit div msPerDay"
    by (simp add: late_visit_def msPerDay_def)
  from endVisit_duration [OF h, of 88500000] t d h r show ?thesis by blast
qed

subsection \<open>Emergency override\<close>

text \<open>
  C10. An emergency override for a customer who is outside opens a visit whose services
  are gym and spa. The operation takes a customer id and a reason only, so no other
  service set can be asked for.
\<close>

theorem emergencyOverride_services:
  assumes "cid \<noteq> []" and "reason \<noteq> []"
    and "getCustomerById s cid = Some c" and "\<not> inside c"
  shows "visits (snd (emergencyOverride s cid reason now)) =
     visits s @ [\<lparr> visitId = mkVisitId (nextVisitId s), v_customerId = cid,
                   entryTime = now, exitTime = None, duration = None,
                   services = [''gym'', ''spa''], date = now div msPerDay \<rparr>]"
proof -
  from assms(3) have id: "customerId c = cid"
    using find_key [of customerId cid "customers s" c] by (simp add: getCustomerById_def)
  have g: "cs_getCustomerById s cid = Inr c"
    using assms(1,3) by (simp add: cs_getCustomerById_def)
  from emergencyOverride_state [OF assms(1,2) g, of now] assms(4)
  obtain h where "snd (emergencyOverride s cid reason now) =
      (snd (processEntry s c (Some [''gym'', ''spa'']) now))\<lparr>scanHistory := h\<rparr>"
    by auto
  moreover from processEntry_state [of s c "Some [''gym'', ''spa'']" now] assms(3) id
  obtain h' where "snd (processEntry s c (Some [''gym'', ''spa'']) now) =
     s\<lparr>visits := visits s @ [\<lparr> visitId = mkVisitId (nextVisitId s), v_customerId = customerId c,
                   entryTime = now, exitTime = None, duration = None,
                   services = [''gym'', ''spa''],
                   date = now div msPerDay \<rparr>],
       nextVisitId := nextVisitId s + 1,
       customers := update_first (\<lambda>x. customerId x = customerId c)
            (\<lambda>x. x\<lparr>currentVisit := Some \<lparr> isInside = True, cv_entryTime = Some now,
                                           cv_exitTime = None \<rparr>\<rparr>) (customers s),
       scanHistory := h'\<rparr>"
    by auto
  ultimately show ?thesis using id by simp
qed

lemma desk_lookup_C: "getCustomerById desk ''00000003'' = Some customerC"
  by (simp add: getCustomerById_def desk_def init_state_def customerC_def member_def)

theorem emergencyOverride_services_witness:
  "''00000003'' \<noteq> [] \<and> ''fire drill'' \<noteq> []
   \<and> getCustomerById desk ''00000003'' = Some customerC \<and> \<not> inside customerC
   \<and> map services (visits (snd (emergencyOverride desk ''00000003'' ''fire drill'' 5000)))
       = [ [''gym'', ''spa''] ]"
proof -
  have o: "\<not> inside customerC"
    by (simp add: inside_def customerC_def member_def outside_def)
  have v: "visits desk = []" by (simp add: desk_def init_state_def)
  show ?thesis
    using emergencyOverride_services [of "''00000003''" "''fire drill''" desk customerC 5000]
      desk_lookup_C o v
    by simp
qed

subsection \<open>Peak hour\<close>

lemma peak_fold:
  "n \<le> length hs \<Longrightarrow>
     (case foldl (peak_step hs) (0, 0) [0..<n] of (p, m) \<Rightarrow>
        (\<forall>h<n. entries (hs ! h) \<le> m)
        \<and> (\<forall>h<p. entries (hs ! h) < m)
        \<and> (p < n \<or> p = 0)
        \<and> (0 < n \<longrightarrow> m = entries (hs ! p)))"
proof (induction n)
  case 0
  then show ?case by simp
next
  case (Suc n)
  obtain p m where f: "foldl (peak_step hs) (0, 0) [0..<n] = (p, m)"
    by (cases "foldl (peak_step hs) (0, 0) [0..<n]")
  from Suc f have ih: "\<forall>h<n. entries (hs ! h) \<le> m" "\<forall>h<p. entries (hs ! h) < m"
    "p < n \<or> p = 0" "0 < n \<longrightarrow> m = entries (hs ! p)"
    by auto
  show ?case
  proof (cases "entries (hs ! n) > m")
    case True
    then have "foldl (peak_step hs) (0, 0) [0..<Suc n] = (n, entries (hs ! n))"
      using f by (simp add: peak_step_def)
    moreover have "\<forall>h<Suc n. entries (hs ! h) \<le> entries (hs ! n)"
      using ih(1) True by (auto simp: less_Suc_eq)
    moreover have "\<forall>h<n. entries (hs ! h) < entries (hs ! n)"
      using ih(1) True by auto
    ultimately show ?thesis by simp
  next
    case False
    then have "foldl (peak_step hs) (0, 0) [0..<Suc n] = (p, m)"
      using f by (simp add: peak_step_def)
    moreover have "\<forall>h<Suc n. entries (hs ! h) \<le> m"
      using ih(1) False by (auto simp: less_Suc_eq)
    moreover have "0 < Suc n \<longrightarrow> m = entries (hs ! p)"
    proof (cases "n = 0")
      case True
      with ih(3) have "p = 0" by simp
      moreover from f True have "m = 0" by simp
      ultimately show ?thesis using False True by simp
    next
      case False
      then show ?thesis using ih(4) by simp
    qed
    ultimately show ?thesis using ih(2,3) by auto
  qed
qed

lemma count_entry_length: "length (count_entry tz hs v) = length hs"
  by (simp add: count_entry_def Let_def split: option.splits)

lemma foldl_count_entry_length: "length (foldl (count_entry tz) hs vs) = length hs"
  by (induction vs arbitrary: hs) (simp_all add: count_entry_length)

lemma getHourlyVisitStats_length: "length (getHourlyVisitStats tz s d) = 24"
  by (simp add: getHourlyVisitStats_def foldl_count_entry_length)

text \<open>
  C6. For hourly statistics with the 24 hours 0 to 23, the reported peak hour is one of
  these hours, no hour has more entries, and every hour before it has fewer entries:
  among the hours with the maximal number of entries it is the lowest.
\<close>

theorem calculatePeakHour_first_maximum:
  assumes "length hs = 24"
  shows "hour (calculatePeakHour hs) < 24
    \<and> ph_entries (calculatePeakHour hs) = entries (hs ! hour (calculatePeakHour hs))
    \<and> (\<forall>h<24. entries (hs ! h) \<le> entries (hs ! hour (calculatePeakHour hs)))
    \<and> (\<forall>h<24. entries (hs ! h) = entries (hs ! hour (calculatePeakHour hs))
          \<longrightarrow> hour (calculatePeakHour hs) \<le> h)"
proof -
  obtain p m where f: "foldl (peak_step hs) (0, 0) [0..<length hs] = (p, m)"
    by (cases "foldl (peak_step hs) (0, 0) [0..<length hs]")
  have hr: "hour (calculatePeakHour hs) = p" and en: "ph_entries (calculatePeakHour hs) = m"
    using f by (simp_all add: calculatePeakHour_def)
  from peak_fold [of "length hs" hs] f assms
  have a: "\<forall>h<24. entries (hs ! h) \<le> m" and b: "\<forall>h<p. entries (hs ! h) < m"
    and c: "p < 24" and d: "m = entries (hs ! p)"
    by auto
  have "\<forall>h<24. entries (hs ! h) = entries (hs ! p) \<longrightarrow> p \<le> h"
  proof (intro allI impI)
    fix h assume "h < 24" and e: "entries (hs ! h) = entries (hs ! p)"
    show "p \<le> h"
    proof (rule ccontr)
      assume "\<not> p \<le> h"
      then have "h < p" by simp
      with b have "entries (hs ! h) < m" by simp
      with e d show False by simp
    qed
  qed
  with a c d hr en show ?thesis by simp
qed

theorem calculatePeakHour_first_maximum_witness:
  "length (getHourlyVisitStats 0 busy_day 1000) = 24
   \<and> map entries (getHourlyVisitStats 0 busy_day 1000) =
       [0, 0, 0, 0, 0, 0, 0, 0, 0, 2, 0, 0, 1, 0, 0, 0, 0, 2, 0, 0, 0, 0, 0, 0]
   \<and> hour (dailyPeakHour 0 busy_day 1000) = 9
   \<and> entries (getHourlyVisitStats 0 busy_day 1000 ! 17)
       = entries (getHourlyVisitStats 0 busy_day 1000 ! hour (dailyPeakHour 0 busy_day 1000))
   \<and> hour (dailyPeakHour 0 busy_day 1000) \<le> 17"
proof -
  let ?hs = "getHourlyVisitStats 0 busy_day 1000"
  have l: "length ?hs = 24" by (rule getHourlyVisitStats_length)
  have m: "map entries ?hs =
       [0, 0, 0, 0, 0, 0, 0, 0, 0, 2, 0, 0, 1, 0, 0, 0, 0, 2, 0, 0, 0, 0, 0, 0]"
    by code_simp
  have p: "hour (dailyPeakHour 0 busy_day 1000) = 9" by code_simp
  have e: "entries (?hs ! 17) = entries (?hs ! hour (dailyPeakHour 0 busy_day 1000))"
    by code_simp
  from calculatePeakHour_first_maximum [OF l] e
  have "hour (dailyPeakHour 0 busy_day 1000) \<le> 17"
    by (simp add: dailyPeakHour_def)
  with l m p e show ?thesis by simp
qed

subsection \<open>Daily revenue\<close>

lemma count_membership_count:
  "breakdownCount (count_membership s st v) = breakdownCount st + (if recognized s v then 1 else 0)"
  by (simp add: count_membership_def recognized_def breakdownCount_def
      split: option.splits)

lemma foldl_count_membership:
  "breakdownCount (foldl (count_membership s) st vs) =
     breakdownCount st + length (filter (recognized s) vs)"
  by (induction vs arbitrary: st) (simp_all add: count_membership_count)

lemma breakdownCount_day:
  "breakdownCount (getMembershipTypeStats s d) = length (filter (recognized s) (getVisitsByDate s d))"
  unfolding getMembershipTypeStats_def foldl_count_membership
  by (simp add: breakdownCount_def)

lemma calculateDailyRevenue_eq:
  "total (calculateDailyRevenue ms) = round (revenueSum ms)"
  "averagePerVisit (calculateDailyRevenue ms) =
     (if breakdownCount ms = 0 then 0 else round (revenueSum ms / rat_of_nat (breakdownCount ms)))"
  by (simp_all add: calculateDailyRevenue_def revenueSum_def breakdownCount_def Let_def)

text \<open>
  C7, as the code has it. \<open>revenue.total\<close> is the rounded sum over the membership types
  of breakdown count times daily rate. \<open>averagePerVisit\<close> is the unrounded sum divided by
  the number of visits counted in the breakdown, rounded, and 0 when the breakdown is
  empty. That number is the number of visits of the day whose customer has a recognized
  membership type; it is at most \<open>totalVisits\<close>, and equal to it when every visit of the
  day has such a customer.
\<close>

theorem dailyRevenue_average:
  "total (dailyRevenue s d) = round (revenueSum (getMembershipTypeStats s d))
   \<and> averagePerVisit (dailyRevenue s d) =
       (if breakdownCount (getMembershipTypeStats s d) = 0 then 0
        else round (revenueSum (getMembershipTypeStats s d)
                    / rat_of_nat (breakdownCount (getMembershipTypeStats s d))))
   \<and> breakdownCount (getMembershipTypeStats s d)
       = length (filter (recognized s) (getVisitsByDate s d))
   \<and> breakdownCount (getMembershipTypeStats s d) \<le> totalVisits (dailyOverview s d)
   \<and> ((\<forall>v \<in> set (getVisitsByDate s d). recognized s v) \<longrightarrow>
         breakdownCount (getMembershipTypeStats s d) = totalVisits (dailyOverview s d))"
proof -
  have t: "totalVisits (dailyOverview s d) = length (getVisitsByDate s d)"
    by (simp add: dailyOverview_def getVisitStatsByDate_def Let_def)
  have "(\<forall>v \<in> set (getVisitsByDate s d). recognized s v) \<longrightarrow>
      filter (recognized s) (getVisitsByDate s d) = getVisitsByDate s d"
    by simp
  then show ?thesis
    by (simp add: dailyRevenue_def calculateDailyRevenue_eq breakdownCount_day t)
qed

theorem dailyRevenue_average_witness:
  "list_all (recognized mixed_day) (getVisitsByDate mixed_day 1000)
   \<and> breakdownCount (getMembershipTypeStats mixed_day 1000) = 2
   \<and> totalVisits (dailyOverview mixed_day 1000) = 2
   \<and> revenueSum (getMembershipTypeStats mixed_day 1000) = 200 / 3
   \<and> total (dailyRevenue mixed_day 1000) = 67
   \<and> averagePerVisit (dailyRevenue mixed_day 1000) = 33"
proof -
  let ?ms = "getMembershipTypeStats mixed_day 1000"
  have r: "\<forall>v \<in> set (getVisitsByDate mixed_day 1000). recognized mixed_day v"
    by code_simp
  have c: "totalVisits (dailyOverview mixed_day 1000) = 2" by code_simp
  have s: "revenueSum ?ms = 200 / 3" by code_simp
  have q: "round (200 / 3 :: rat) = 67" "round (200 / 3 / rat_of_nat 2 :: rat) = 33"
    by code_simp+
  note t = dailyRevenue_average [of mixed_day 1000]
  from t r c have n: "breakdownCount ?ms = 2" by simp
  from t have "total (dailyRevenue mixed_day 1000) = round (revenueSum ?ms)" by blast
  then have a: "total (dailyRevenue mixed_day 1000) = 67" by (simp only: s q)
  from t have "averagePerVisit (dailyRevenue mixed_day 1000) =
       (if breakdownCount ?ms = 0 then 0
        else round (revenueSum ?ms / rat_of_nat (breakdownCount ?ms)))" by blast
  then have "averagePerVisit (dailyRevenue mixed_day 1000) = round (200 / 3 / rat_of_nat 2 :: rat)"
    unfolding n s by simp
  then have b: "averagePerVisit (dailyRevenue mixed_day 1000) = 33" by (simp only: q)
  from r have "list_all (recognized mixed_day) (getVisitsByDate mixed_day 1000)"
    by (simp add: list_all_iff)
  with n c s a b show ?thesis by blast
qed

text \<open>
  C7 as stated fails on both days. With a daily and a monthly member the total is 67 and
  the average is 33, not \<open>round(67 / 2) = 34\<close>. With a daily member and a guest without
  membership there are two visits and a total of 50, and the average is 50, not 25.
\<close>

theorem averagePerVisit_counterexample:
  "averagePerVisit (dailyRevenue mixed_day 1000) \<noteq>
     round (rat_of_int (total (dailyRevenue mixed_day 1000))
            / rat_of_nat (totalVisits (dailyOverview mixed_day 1000)))
   \<and> averagePerVisit (dailyRevenue guest_day 1000) \<noteq>
     round (rat_of_int (total (dailyRevenue guest_day 1000))
            / rat_of_nat (totalVisits (dailyOverview guest_day 1000)))"
  by code_simp

subsection \<open>Subscription eligibility\<close>

lemma subscriptionStatus_isValid:
  "membership c = Some m \<Longrightarrow>
     isValid (subscriptionStatus cal c now) =
       (\<not> isSuspended (subscriptionStatus cal c now) \<and> \<not> isExpired (subscriptionStatus cal c now)
        \<and> status m = MEMBERSHIP_STATUS_ACTIVE)"
  by (auto simp: subscriptionStatus_def Let_def)

lemma isSubscriptionExpired_Missing: "isSubscriptionExpired Missing now"
  by (simp add: isSubscriptionExpired_def)

text \<open>
  C2. The computed subscription status of a member whose status is \<open>expired\<close> and whose
  end date lies ahead is not valid, but \<open>validateSubscription\<close> finds the same member
  valid, and the scan is taken as an entry.
\<close>

theorem validateSubscription_ignores_status:
  "\<not> isExpired (subscriptionStatus plain_days customerE (1000 * msPerDay))
   \<and> \<not> isSuspended (subscriptionStatus plain_days customerE (1000 * msPerDay))
   \<and> status (the (membership customerE)) \<noteq> MEMBERSHIP_STATUS_ACTIVE
   \<and> \<not> isValid (subscriptionStatus plain_days customerE (1000 * msPerDay))
   \<and> vr_isValid (validateSubscription plain_days lobby ''00000007'' (1000 * msPerDay))
   \<and> otype (fst (processBarcodeEntry plain_days lobby ''00000007'' None (1000 * msPerDay))) = Some entry
   \<and> map v_customerId (visits (snd (processBarcodeEntry plain_days lobby ''00000007'' None (1000 * msPerDay))))
       = [''00000007'']"
  by code_simp

text \<open>
  C4. An end date that does not parse is not expired for \<open>isSubscriptionExpired\<close>; the
  member is valid for both eligibility computations and the scan is taken as an entry.
\<close>

theorem malformed_endDate_not_expired:
  "\<not> isSubscriptionExpired Malformed (1000 * msPerDay)
   \<and> \<not> isExpired (subscriptionStatus plain_days customerM (1000 * msPerDay))
   \<and> isValid (subscriptionStatus plain_days customerM (1000 * msPerDay))
   \<and> vr_isValid (validateSubscription plain_days lobby ''00000008'' (1000 * msPerDay))
   \<and> otype (fst (processBarcodeEntry plain_days lobby ''00000008'' None (1000 * msPerDay))) = Some entry"
  by code_simp




subsection \<open>The scan history is write-only for the entry and exit logic\<close>

lemma addVisit_history:
  "addVisit (s\<lparr>scanHistory := h\<rparr>) cid t svcs d =
     (fst (addVisit s cid t svcs d), (snd (addVisit s cid t svcs d))\<lparr>scanHistory := h\<rparr>)"
  by (simp add: addVisit_def Let_def)

lemma updateCustomerVisitStatus_history:
  "updateCustomerVisitStatus (s\<lparr>scanHistory := h\<rparr>) cid b e x =
     map_option (\<lambda>s'. s'\<lparr>scanHistory := h\<rparr>) (updateCustomerVisitStatus s cid b e x)"
  by (simp add: updateCustomerVisitStatus_def getCustomerById_def split: option.splits)

lemma endVisit_history:
  "endVisit (s\<lparr>scanHistory := h\<rparr>) vid t =
     map_option (\<lambda>s'. s'\<lparr>scanHistory := h\<rparr>) (endVisit s vid t)"
  by (simp add: endVisit_def getVisitById_def split: option.splits)

lemma addToScanHistory_history:
  "addToScanHistory (s\<lparr>scanHistory := h\<rparr>) e =
     (addToScanHistory s e)\<lparr>scanHistory := scanHistory (addToScanHistory (s\<lparr>scanHistory := h\<rparr>) e)\<rparr>"
  by (simp add: addToScanHistory_def Let_def)

lemma processEntry_history:
  "\<exists>h'. processEntry (s\<lparr>scanHistory := h\<rparr>) c svcs now =
     (fst (processEntry s c svcs now), (snd (processEntry s c svcs now))\<lparr>scanHistory := h'\<rparr>)"
proof -
  let ?sv = "Some (case svcs of None \<Rightarrow> [''gym''] | Some l \<Rightarrow> l)"
  let ?a = "addVisit s (customerId c) now ?sv (now div msPerDay)"
  obtain nv s1 where a: "?a = (nv, s1)" by (cases ?a)
  have a': "addVisit (s\<lparr>scanHistory := h\<rparr>) (customerId c) now ?sv (now div msPerDay)
      = (nv, s1\<lparr>scanHistory := h\<rparr>)"
    using addVisit_history [where s = s and h = h and cid = "customerId c" and t = now
        and svcs = ?sv and d = "now div msPerDay"] a by simp
  note u' = updateCustomerVisitStatus_history [where s = s1 and h = h and cid = "customerId c"
      and b = True and e = "Some now" and x = None]
  show ?thesis
  proof (cases "updateCustomerVisitStatus s1 (customerId c) True (Some now) None")
    case None
    then show ?thesis using a a' u'
      by (intro exI [of _ h]) (simp add: processEntry_def)
  next
    case (Some s2)
    show ?thesis
    proof (cases "personalInfo c")
      case None
      then show ?thesis using a a' u' Some
        by (intro exI [of _ h]) (simp add: processEntry_def)
    next
      case p: (Some p)
      let ?e = "\<lparr> sh_customerId = customerId c, sh_customerName = customerName p,
                   sh_action = ''entry'', sh_timestamp = now,
                   sh_isEmergencyOverride = False \<rparr>"
      have "addToScanHistory (s2\<lparr>scanHistory := h\<rparr>) ?e =
          (addToScanHistory s2 ?e)\<lparr>scanHistory := scanHistory (addToScanHistory (s2\<lparr>scanHistory := h\<rparr>) ?e)\<rparr>"
        by (rule addToScanHistory_history)
      then show ?thesis using a a' u' Some p
        by (intro exI [of _ "scanHistory (addToScanHistory (s2\<lparr>scanHistory := h\<rparr>) ?e)"])
          (simp add: processEntry_def)
    qed
  qed
qed


lemma processExit_history:
  "\<exists>h'. processExit (s\<lparr>scanHistory := h\<rparr>) c now =
     (fst (processExit s c now), (snd (processExit s c now))\<lparr>scanHistory := h'\<rparr>)"
proof (cases "inside c")
  case False
  then show ?thesis by (intro exI [of _ h]) (simp add: processExit_def)
next
  case True
  have g: "getCurrentVisits (s\<lparr>scanHistory := h\<rparr>) = getCurrentVisits s"
    by (simp add: getCurrentVisits_def)
  have gv: "\<And>vid. getVisitById (s\<lparr>scanHistory := h\<rparr>) vid = getVisitById s vid"
    by (simp add: getVisitById_def)
  show ?thesis
  proof (cases "List.find (\<lambda>v. v_customerId v = customerId c) (getCurrentVisits s)")
    case None
    then show ?thesis using True g by (intro exI [of _ h]) (simp add: processExit_def)
  next
    case (Some v)
    note e' = endVisit_history [where s = s and h = h and vid = "visitId v" and t = now]
    show ?thesis
    proof (cases "endVisit s (visitId v) now")
      case None
      then show ?thesis using True g Some e'
        by (intro exI [of _ h]) (simp add: processExit_def)
    next
      case e: (Some s1)
      note u' = updateCustomerVisitStatus_history [where s = s1 and h = h
          and cid = "customerId c" and b = False and e = None and x = "Some now"]
      show ?thesis
      proof (cases "updateCustomerVisitStatus s1 (customerId c) False None (Some now)")
        case None
        then show ?thesis using True g Some e e' u'
          by (intro exI [of _ h]) (simp add: processExit_def)
      next
        case u: (Some s2)
        show ?thesis
        proof (cases "personalInfo c")
          case None
          then show ?thesis using True g Some e e' u u'
            by (intro exI [of _ h]) (simp add: processExit_def)
        next
          case p: (Some p)
          let ?e = "\<lparr> sh_customerId = customerId c, sh_customerName = customerName p,
                       sh_action = ''exit'', sh_timestamp = now,
                       sh_isEmergencyOverride = False \<rparr>"
          have "addToScanHistory (s2\<lparr>scanHistory := h\<rparr>) ?e =
              (addToScanHistory s2 ?e)\<lparr>scanHistory :=
                 scanHistory (addToScanHistory (s2\<lparr>scanHistory := h\<rparr>) ?e)\<rparr>"
            by (rule addToScanHistory_history)
          then show ?thesis using True g gv Some e e' u u' p
            by (intro exI [of _ "scanHistory (addToScanHistory (s2\<lparr>scanHistory := h\<rparr>) ?e)"])
              (simp add: processExit_def Let_def)
        qed
      qed
    qed
  qed
qed

lemma processBarcodeEntry_history:
  "\<exists>h'. processBarcodeEntry cal (s\<lparr>scanHistory := h\<rparr>) barcode svcs now =
     (fst (processBarcodeEntry cal s barcode svcs now),
      (snd (processBarcodeEntry cal s barcode svcs now))\<lparr>scanHistory := h'\<rparr>)"
proof -
  have g: "getCustomerByBarcode (s\<lparr>scanHistory := h\<rparr>) barcode = getCustomerByBarcode s barcode"
    by (simp add: getCustomerByBarcode_def cs_getCustomerById_def getCustomerById_def
        split: sum.splits)
  have v: "\<And>cid. validateSubscription cal (s\<lparr>scanHistory := h\<rparr>) cid now = validateSubscription cal s cid now"
    by (simp add: validateSubscription_def getCustomerById_def)
  show ?thesis
  proof (cases "validateBarcode barcode")
    case (Inl msg)
    then show ?thesis by (intro exI [of _ h]) (simp add: processBarcodeEntry_def)
  next
    case (Inr u)
    show ?thesis
    proof (cases "getCustomerByBarcode s barcode")
      case (Inl msg)
      then show ?thesis using Inr g by (intro exI [of _ h]) (simp add: processBarcodeEntry_def)
    next
      case c: (Inr c)
      show ?thesis
      proof (cases "vr_isValid (validateSubscription cal s (customerId c) now)")
        case False
        then show ?thesis using Inr c g v
          by (intro exI [of _ h]) (simp add: processBarcodeEntry_def Let_def)
      next
        case True
        let ?sv = "Some (case svcs of None \<Rightarrow> [''gym''] | Some l \<Rightarrow> l)"
        have a: "processBarcodeEntry cal s barcode svcs now =
            (if inside c then processExit s c now else processEntry s c ?sv now)"
          using Inr c True by (simp add: processBarcodeEntry_def Let_def)
        have b: "processBarcodeEntry cal (s\<lparr>scanHistory := h\<rparr>) barcode svcs now =
            (if inside c then processExit (s\<lparr>scanHistory := h\<rparr>) c now
             else processEntry (s\<lparr>scanHistory := h\<rparr>) c ?sv now)"
          using Inr c True g v by (simp add: processBarcodeEntry_def Let_def)
        show ?thesis
          using a b processExit_history [where s = s and h = h and c = c and now = now]
            processEntry_history [where s = s and h = h and c = c and svcs = ?sv and now = now]
          by (cases "inside c") simp_all
      qed
    qed
  qed
qed

lemma checkForDuplicateEntry_iff:
  "checkForDuplicateEntry s cid w now \<longleftrightarrow>
     (\<exists>e \<in> set (scanHistory s). sh_customerId e = cid \<and> now - sh_timestamp e < w)"
  by (auto simp: checkForDuplicateEntry_def filter_empty_conv)

text \<open>
  A scan does not read the scan history: its outcome, and the state it leaves apart from
  the scan history, are what they are with any other scan history.
\<close>

lemma processBarcodeEntry_ignores_history:
  "fst (processBarcodeEntry cal (s\<lparr>scanHistory := h\<rparr>) barcode svcs now)
       = fst (processBarcodeEntry cal s barcode svcs now)
   \<and> customers (snd (processBarcodeEntry cal (s\<lparr>scanHistory := h\<rparr>) barcode svcs now))
       = customers (snd (processBarcodeEntry cal s barcode svcs now))
   \<and> visits (snd (processBarcodeEntry cal (s\<lparr>scanHistory := h\<rparr>) barcode svcs now))
       = visits (snd (processBarcodeEntry cal s barcode svcs now))"
proof -
  obtain h' where "processBarcodeEntry cal (s\<lparr>scanHistory := h\<rparr>) barcode svcs now =
     (fst (processBarcodeEntry cal s barcode svcs now),
      (snd (processBarcodeEntry cal s barcode svcs now))\<lparr>scanHistory := h'\<rparr>)"
    using processBarcodeEntry_history by blast
  then show ?thesis by simp
qed

text \<open>
  C9. A scan within five seconds of a recorded scan of the same customer should be
  flagged as a likely duplicate and still be processed. The code has the check and
  does not use it: one second after customer C has scanned in, the duplicate check is
  true for C, and the outcome of a second scan by C is an ordinary exit without a
  warning, equal in every field to the outcome the same scan has with an empty scan
  history.
\<close>

theorem duplicate_scan_not_flagged:
  "checkForDuplicateEntry after_scan ''00000003'' 5000 (1000 * msPerDay + 1000)
   \<and> fst (processBarcodeEntry plain_days after_scan ''00000003'' None (1000 * msPerDay + 1000))
       = fst (processBarcodeEntry plain_days (after_scan\<lparr>scanHistory := []\<rparr>) ''00000003'' None
               (1000 * msPerDay + 1000))
   \<and> otype (fst (processBarcodeEntry plain_days after_scan ''00000003'' None
               (1000 * msPerDay + 1000))) = Some exit
   \<and> warnings (fst (processBarcodeEntry plain_days after_scan ''00000003'' None
               (1000 * msPerDay + 1000))) = []"
  by code_simp

subsection \<open>The well-formed ledger is preserved\<close>

lemma ledger_ok_history [simp]: "ledger_ok (s\<lparr>scanHistory := h\<rparr>) = ledger_ok s"
  by (simp add: ledger_ok_def openIds_def insideIds_def getCurrentVisits_def)

lemma insideIds_update:
  "set (map customerId (filter inside
       (map (\<lambda>x. if customerId x = cid then x\<lparr>currentVisit := Some cv\<rparr> else x) cs))) =
   (set (map customerId (filter inside cs)) - {cid})
   \<union> (if isInside cv \<and> cid \<in> set (map customerId cs) then {cid} else {})"
  by (induction cs) (auto simp: inside_def)

lemma ids_update:
  "map customerId (map (\<lambda>x. if customerId x = cid then x\<lparr>currentVisit := cv\<rparr> else x) cs)
     = map customerId cs"
  by (induction cs) auto

lemma inside_unique:
  assumes "distinct (map customerId cs)" and "c \<in> set cs" and "\<not> inside c"
  shows "customerId c \<notin> set (map customerId (filter inside cs))"
proof
  assume "customerId c \<in> set (map customerId (filter inside cs))"
  then obtain x where x: "x \<in> set cs" "inside x" "customerId x = customerId c" by auto
  from assms(1) have "inj_on customerId (set cs)" by (simp add: distinct_map)
  with x(1,3) assms(2) have "x = c" by (auto dest: inj_onD)
  with x(2) assms(3) show False by simp
qed

lemma issued_fresh:
  assumes "\<forall>v \<in> set vs. visitId v \<in> set (map mkVisitId [0..<n])"
  shows "mkVisitId n \<notin> set (map visitId vs)"
proof
  assume "mkVisitId n \<in> set (map visitId vs)"
  then obtain v where "v \<in> set vs" "visitId v = mkVisitId n" by auto
  with assms obtain k where "k < n" "mkVisitId n = mkVisitId k" by auto
  then show False using mkVisitId_inj by blast
qed

lemma entry_ok:
  assumes ok: "ledger_ok s" and c: "c \<in> set (customers s)" and out: "\<not> inside c"
    and nv: "visitId nv = mkVisitId (nextVisitId s)" "v_customerId nv = customerId c"
      "exitTime nv = None"
    and cv: "isInside cv"
  shows "ledger_ok (s\<lparr>visits := visits s @ [nv], nextVisitId := nextVisitId s + 1,
     customers := update_first (\<lambda>x. customerId x = customerId c)
        (\<lambda>x. x\<lparr>currentVisit := Some cv\<rparr>) (customers s), scanHistory := h\<rparr>)"
proof -
  let ?cid = "customerId c"
  let ?cs' = "map (\<lambda>x. if customerId x = ?cid then x\<lparr>currentVisit := Some cv\<rparr> else x) (customers s)"
  from ok have d: "distinct (map customerId (customers s))"
    and dv: "distinct (map visitId (visits s))"
    and iss: "\<forall>v \<in> set (visits s). visitId v \<in> set (map mkVisitId [0..<nextVisitId s])"
    and dO: "distinct (openIds s)" and eq: "set (openIds s) = set (insideIds s)"
    by (simp_all add: ledger_ok_def)
  have u: "update_first (\<lambda>x. customerId x = ?cid) (\<lambda>x. x\<lparr>currentVisit := Some cv\<rparr>) (customers s) = ?cs'"
    using d by (rule update_first_distinct)
  have 1: "distinct (map customerId ?cs')" using d by (simp only: ids_update)
  have 2: "distinct (map visitId (visits s @ [nv]))"
    using dv issued_fresh [OF iss] nv(1) by simp
  have 3: "\<forall>v \<in> set (visits s @ [nv]). visitId v \<in> set (map mkVisitId [0..<nextVisitId s + 1])"
    using iss nv(1) by auto
  have notin: "?cid \<notin> set (insideIds s)"
    using inside_unique [OF d c out] by (simp add: insideIds_def)
  have o: "map v_customerId (filter (\<lambda>v. exitTime v = None) (visits s @ [nv])) = openIds s @ [?cid]"
    using nv(2,3) by (simp add: openIds_def getCurrentVisits_def)
  have 4: "distinct (openIds s @ [?cid])" using dO notin eq by simp
  have "set (map customerId (filter inside ?cs')) =
      (set (insideIds s) - {?cid})
      \<union> (if isInside cv \<and> ?cid \<in> set (map customerId (customers s)) then {?cid} else {})"
    unfolding insideIds_def by (rule insideIds_update)
  moreover have "?cid \<in> set (map customerId (customers s))" using c by simp
  ultimately have i: "set (map customerId (filter inside ?cs')) = insert ?cid (set (insideIds s))"
    using cv by (simp only: if_True simp_thms) auto
  have 5: "set (openIds s @ [?cid]) = set (map customerId (filter inside ?cs'))"
    using eq i by simp
  show ?thesis
    unfolding u using 1 2 3 4 5 o
    by (simp add: ledger_ok_def openIds_def insideIds_def getCurrentVisits_def)
qed


lemma visitIds_update:
  "map visitId (map (\<lambda>x. if visitId x = vid then x\<lparr>exitTime := e, duration := d x\<rparr> else x) vs)
     = map visitId vs"
  by (induction vs) auto

lemma open_after_close:
  "filter (\<lambda>v. exitTime v = None)
     (map (\<lambda>x. if visitId x = vid then x\<lparr>exitTime := Some t, duration := d x\<rparr> else x) vs)
   = filter (\<lambda>x. exitTime x = None \<and> visitId x \<noteq> vid) vs"
  by (induction vs) auto

lemma exit_ok:
  assumes ok: "ledger_ok s"
    and v: "v \<in> set (visits s)" "exitTime v = None"
    and cv: "\<not> isInside cv"
  shows "ledger_ok (s\<lparr>visits := update_first (\<lambda>x. visitId x = visitId v)
        (\<lambda>x. x\<lparr>exitTime := Some t, duration := d x\<rparr>) (visits s),
     customers := update_first (\<lambda>x. customerId x = v_customerId v)
        (\<lambda>x. x\<lparr>currentVisit := Some cv\<rparr>) (customers s), scanHistory := h\<rparr>)"
proof -
  let ?cid = "v_customerId v"
  let ?vid = "visitId v"
  let ?cs' = "map (\<lambda>x. if customerId x = ?cid then x\<lparr>currentVisit := Some cv\<rparr> else x) (customers s)"
  let ?vs' = "map (\<lambda>x. if visitId x = ?vid then x\<lparr>exitTime := Some t, duration := d x\<rparr> else x) (visits s)"
  from ok have dc: "distinct (map customerId (customers s))"
    and dv: "distinct (map visitId (visits s))"
    and iss: "\<forall>v \<in> set (visits s). visitId v \<in> set (map mkVisitId [0..<nextVisitId s])"
    and dO: "distinct (openIds s)" and eq: "set (openIds s) = set (insideIds s)"
    by (simp_all add: ledger_ok_def)
  have uc: "update_first (\<lambda>x. customerId x = ?cid) (\<lambda>x. x\<lparr>currentVisit := Some cv\<rparr>) (customers s) = ?cs'"
    using dc by (rule update_first_distinct)
  have uv: "update_first (\<lambda>x. visitId x = ?vid) (\<lambda>x. x\<lparr>exitTime := Some t, duration := d x\<rparr>) (visits s) = ?vs'"
    using dv by (rule update_first_distinct)
  have 1: "distinct (map customerId ?cs')" using dc by (simp only: ids_update)
  have 2: "distinct (map visitId ?vs')" using dv by (simp only: visitIds_update)
  have "set ?vs' \<subseteq> set (visits s) \<union> (\<lambda>x. x\<lparr>exitTime := Some t, duration := d x\<rparr>) ` set (visits s)"
    by auto
  then have 3: "\<forall>x \<in> set ?vs'. visitId x \<in> set (map mkVisitId [0..<nextVisitId s])"
    using iss by auto
  have injv: "inj_on visitId (set (visits s))" using dv by (simp add: distinct_map)
  have injo: "inj_on v_customerId (set (filter (\<lambda>x. exitTime x = None) (visits s)))"
    using dO by (simp add: openIds_def getCurrentVisits_def distinct_map)
  have same: "\<And>x. x \<in> set (visits s) \<Longrightarrow> exitTime x = None \<Longrightarrow>
      (visitId x \<noteq> ?vid) = (v_customerId x \<noteq> ?cid)"
  proof -
    fix x assume x: "x \<in> set (visits s)" "exitTime x = None"
    show "(visitId x \<noteq> ?vid) = (v_customerId x \<noteq> ?cid)"
    proof
      assume n: "visitId x \<noteq> ?vid"
      show "v_customerId x \<noteq> ?cid"
      proof
        assume "v_customerId x = ?cid"
        with injo x v have "x = v" by (auto dest: inj_onD)
        with n show False by simp
      qed
    next
      assume "v_customerId x \<noteq> ?cid"
      then show "visitId x \<noteq> ?vid" using injv x(1) v(1) by (auto dest: inj_onD)
    qed
  qed
  have "filter (\<lambda>x. exitTime x = None) ?vs' =
      filter (\<lambda>x. exitTime x = None \<and> visitId x \<noteq> ?vid) (visits s)"
    by (rule open_after_close)
  also have "\<dots> = filter (\<lambda>x. exitTime x = None \<and> v_customerId x \<noteq> ?cid) (visits s)"
    using same by (intro filter_cong) auto
  finally have "map v_customerId (filter (\<lambda>x. exitTime x = None) ?vs') =
      map v_customerId (filter (\<lambda>x. v_customerId x \<noteq> ?cid) (filter (\<lambda>x. exitTime x = None) (visits s)))"
    by (simp add: conj_commute)
  also have "\<dots> = filter (\<lambda>i. i \<noteq> ?cid) (openIds s)"
    by (simp add: openIds_def getCurrentVisits_def filter_map comp_def)
  finally have o: "map v_customerId (filter (\<lambda>x. exitTime x = None) ?vs') =
      filter (\<lambda>i. i \<noteq> ?cid) (openIds s)" .
  have 4: "distinct (filter (\<lambda>i. i \<noteq> ?cid) (openIds s))" using dO by simp
  have "set (map customerId (filter inside ?cs')) =
      (set (insideIds s) - {?cid})
      \<union> (if isInside cv \<and> ?cid \<in> set (map customerId (customers s)) then {?cid} else {})"
    unfolding insideIds_def by (rule insideIds_update)
  then have i: "set (map customerId (filter inside ?cs')) = set (insideIds s) - {?cid}"
    using cv by simp
  have 5: "set (filter (\<lambda>i. i \<noteq> ?cid) (openIds s)) = set (map customerId (filter inside ?cs'))"
    using eq i by auto
  show ?thesis
    unfolding uc uv using 1 2 3 4 5 o
    by (simp add: ledger_ok_def openIds_def insideIds_def getCurrentVisits_def)
qed

lemma register_ok:
  assumes ok: "ledger_ok s" and u: "isCustomerIdUnique s (cd_customerId cd)"
  shows "ledger_ok (snd (addCustomer s cd))"
proof -
  from u have "cd_customerId cd \<notin> set (map customerId (customers s))"
    by (auto simp: isCustomerIdUnique_def list_ex_iff)
  then show ?thesis using ok
    by (simp add: ledger_ok_def addCustomer_def Let_def openIds_def insideIds_def
        getCurrentVisits_def inside_def)
qed

lemma getCustomerById_Some:
  assumes "getCustomerById s cid = Some c"
  shows "c \<in> set (customers s)" and "customerId c = cid"
  using find_key [of customerId cid "customers s" c] assms
  by (simp_all add: getCustomerById_def)

lemma processEntry_ok:
  assumes "ledger_ok s" and "getCustomerById s (customerId c) = Some c" and "\<not> inside c"
  shows "ledger_ok (snd (processEntry s c svcs now))"
proof -
  from assms(2) have c: "c \<in> set (customers s)" by (rule getCustomerById_Some)
  from assms(2) have "getCustomerById s (customerId c) \<noteq> None" by simp
  from processEntry_state [OF this, of svcs now]
  obtain h where "snd (processEntry s c svcs now) =
     s\<lparr>visits := visits s @ [\<lparr> visitId = mkVisitId (nextVisitId s), v_customerId = customerId c,
                   entryTime = now, exitTime = None, duration = None,
                   services = (case svcs of None \<Rightarrow> [''gym''] | Some l \<Rightarrow> l),
                   date = now div msPerDay \<rparr>],
       nextVisitId := nextVisitId s + 1,
       customers := update_first (\<lambda>x. customerId x = customerId c)
            (\<lambda>x. x\<lparr>currentVisit := Some \<lparr> isInside = True, cv_entryTime = Some now,
                                           cv_exitTime = None \<rparr>\<rparr>) (customers s),
       scanHistory := h\<rparr>"
    by blast
  then show ?thesis
    using entry_ok [OF assms(1) c assms(3), where h = h
        and cv = "\<lparr> isInside = True, cv_entryTime = Some now, cv_exitTime = None \<rparr>"
        and nv = "\<lparr> visitId = mkVisitId (nextVisitId s), v_customerId = customerId c,
                   entryTime = now, exitTime = None, duration = None,
                   services = (case svcs of None \<Rightarrow> [''gym''] | Some l \<Rightarrow> l),
                   date = now div msPerDay \<rparr>"]
    by simp
qed

lemma processExit_ok:
  assumes "ledger_ok s" and "getCustomerById s (customerId c) \<noteq> None"
  shows "ledger_ok (snd (processExit s c now))"
proof (cases "inside c \<and> List.find (\<lambda>v. v_customerId v = customerId c) (getCurrentVisits s) \<noteq> None")
  case False
  then have "snd (processExit s c now) = s"
    using processExit_unchanged [of c s now] by blast
  then show ?thesis using assms(1) by simp
next
  case True
  then obtain v where i: "inside c"
    and f: "List.find (\<lambda>v. v_customerId v = customerId c) (getCurrentVisits s) = Some v"
    by auto
  note v = getCurrentVisits_find [OF f]
  from processExit_state [OF i f assms(2), of now]
  obtain h where "snd (processExit s c now) =
     s\<lparr>visits := update_first (\<lambda>x. visitId x = visitId v)
            (\<lambda>x. x\<lparr>exitTime := Some now,
                    duration := Some ((now - entryTime x) div msPerMinute)\<rparr>) (visits s),
       customers := update_first (\<lambda>x. customerId x = customerId c)
            (\<lambda>x. x\<lparr>currentVisit := Some \<lparr> isInside = False, cv_entryTime = None,
                                           cv_exitTime = Some now \<rparr>\<rparr>) (customers s),
       scanHistory := h\<rparr>"
    by blast
  then show ?thesis
    using exit_ok [OF assms(1) v(1) v(2), where h = h and t = now
        and cv = "\<lparr> isInside = False, cv_entryTime = None, cv_exitTime = Some now \<rparr>"
        and d = "\<lambda>x. Some ((now - entryTime x) div msPerMinute)"] v(3)
    by simp
qed

lemma processBarcodeEntry_ok:
  assumes "ledger_ok s"
  shows "ledger_ok (snd (processBarcodeEntry cal s barcode svcs now))"
proof (cases "validateBarcode barcode")
  case (Inl msg)
  then show ?thesis using assms by (simp add: processBarcodeEntry_def)
next
  case (Inr u)
  show ?thesis
  proof (cases "getCustomerByBarcode s barcode")
    case (Inl msg)
    then show ?thesis using Inr assms by (simp add: processBarcodeEntry_def)
  next
    case c: (Inr c)
    then have "cs_getCustomerById s (trim barcode) = Inr c"
      using Inr by (simp add: getCustomerByBarcode_def)
    note g = cs_getCustomerById_Inr [OF this]
    from g(1,2) have g': "getCustomerById s (customerId c) = Some c" by simp
    show ?thesis
    proof (cases "vr_isValid (validateSubscription cal s (customerId c) now)")
      case False
      then show ?thesis using Inr c assms by (simp add: processBarcodeEntry_def Let_def)
    next
      case True
      let ?sv = "Some (case svcs of None \<Rightarrow> [''gym''] | Some l \<Rightarrow> l)"
      have "processBarcodeEntry cal s barcode svcs now =
          (if inside c then processExit s c now else processEntry s c ?sv now)"
        using Inr c True by (simp add: processBarcodeEntry_def Let_def)
      then show ?thesis
        using processExit_ok [OF assms, of c now] processEntry_ok [OF assms g', of ?sv now] g'
        by (cases "inside c") simp_all
    qed
  qed
qed

lemma manualEntryExit_ok:
  assumes "ledger_ok s"
  shows "ledger_ok (snd (manualEntryExit s cid action svcs now))"
proof (cases "cid = [] \<or> action \<notin> set [''entry'', ''exit'']")
  case True
  then show ?thesis using assms by (auto simp: manualEntryExit_def)
next
  case False
  then have n: "cid \<noteq> []" "\<not> action \<notin> set [''entry'', ''exit'']" by auto
  show ?thesis
  proof (cases "cs_getCustomerById s cid")
    case (Inl msg)
    then show ?thesis using n assms by (simp add: manualEntryExit_def)
  next
    case (Inr c)
    note g = cs_getCustomerById_Inr [OF Inr]
    from g(1,2) have g': "getCustomerById s (customerId c) = Some c" by simp
    let ?sv = "Some (case svcs of None \<Rightarrow> [''gym''] | Some l \<Rightarrow> l)"
    have "snd (manualEntryExit s cid action svcs now) = s
        \<or> (\<not> inside c \<and> snd (manualEntryExit s cid action svcs now) = snd (processEntry s c ?sv now))
        \<or> snd (manualEntryExit s cid action svcs now) = snd (processExit s c now)"
      using n Inr by (simp add: manualEntryExit_def)
    then show ?thesis
      using processExit_ok [OF assms, of c now] processEntry_ok [OF assms g', of ?sv now] g' assms
      by auto
  qed
qed

lemma emergencyOverride_ok:
  assumes "ledger_ok s"
  shows "ledger_ok (snd (emergencyOverride s cid reason now))"
proof (cases "cid = [] \<or> reason = []")
  case True
  then show ?thesis using assms emergencyOverride_unchanged [of cid reason s _ now] by auto
next
  case False
  then have n: "cid \<noteq> []" "reason \<noteq> []" by auto
  show ?thesis
  proof (cases "cs_getCustomerById s cid")
    case (Inl msg)
    then show ?thesis using assms emergencyOverride_unchanged [of cid reason s msg now] by simp
  next
    case (Inr c)
    note g = cs_getCustomerById_Inr [OF Inr]
    from g(1,2) have g': "getCustomerById s (customerId c) = Some c" by simp
    from emergencyOverride_state [OF n Inr, of now]
    obtain h where "snd (emergencyOverride s cid reason now) =
     (snd (if inside c then processExit s c now
           else processEntry s c (Some [''gym'', ''spa'']) now))\<lparr>scanHistory := h\<rparr>"
      by blast
    then show ?thesis
      using processExit_ok [OF assms, of c now]
        processEntry_ok [OF assms g', of "Some [''gym'', ''spa'']" now] g'
      by (cases "inside c") simp_all
  qed
qed

lemma registerCustomer_ok:
  assumes "ledger_ok s"
  shows "ledger_ok (snd (registerCustomer s cd now))"
proof (cases "validateCustomerData cd now")
  case False
  then show ?thesis using assms by (simp add: registerCustomer_def)
next
  case True
  then have ne: "cd_customerId cd \<noteq> []"
    by (auto simp: validateCustomerData_def validateCustomerId_def Let_def split: if_splits)
  show ?thesis
  proof (cases "isCustomerIdUnique s (cd_customerId cd)")
    case False
    then show ?thesis using True ne assms by (simp add: registerCustomer_def)
  next
    case u: True
    then have "snd (registerCustomer s cd now) = snd (addCustomer s cd)"
      using True by (simp add: registerCustomer_def split: prod.splits)
    then show ?thesis using register_ok [OF assms u] by simp
  qed
qed

lemma getVisitorById_Inr:
  assumes "getVisitorById s cid = Inr x"
  shows "fst x \<in> set (customers s)" and "customerId (fst x) = cid" and "inside (fst x)"
proof -
  from assms have f: "List.find (\<lambda>x. customerId (fst x) = cid) (vs_getCurrentVisitors s) = Some x"
    by (auto simp: getVisitorById_def split: if_splits option.splits)
  from find_in_set [OF f] have "customerId (fst x) = cid" and "x \<in> set (getCurrentVisitors s)"
    by (simp_all add: vs_getCurrentVisitors_def)
  then show "fst x \<in> set (customers s)" and "customerId (fst x) = cid" and "inside (fst x)"
    by (auto simp: getCurrentVisitors_def)
qed

lemma forceExitVisitor_ok:
  assumes "ledger_ok s"
  shows "ledger_ok (snd (forceExitVisitor s cid reason now))"
proof (cases "cid = []")
  case True
  then show ?thesis using assms by (simp add: forceExitVisitor_def)
next
  case ne: False
  show ?thesis
  proof (cases "getVisitorById s cid")
    case (Inl msg)
    then show ?thesis using ne assms by (simp add: forceExitVisitor_def)
  next
    case (Inr x)
    note x = getVisitorById_Inr [OF Inr]
    show ?thesis
    proof (cases "List.find (\<lambda>v. v_customerId v = cid) (getCurrentVisits s)")
      case None
      then show ?thesis using ne Inr assms by (simp add: forceExitVisitor_def Let_def)
    next
      case (Some v)
      note v = getCurrentVisits_find [OF Some]
      from v(4) obtain s1 where e: "endVisit s (visitId v) now = Some s1"
        using endVisit_None [of s "visitId v" now] by auto
      note s1 = endVisit_Some [OF e]
      have "getCustomerById s1 cid \<noteq> None"
        using x(1,2) s1 by (auto simp: getCustomerById_def find_None_iff)
      then obtain s2 where u: "updateCustomerVisitStatus s1 cid False None (Some now) = Some s2"
        using updateCustomerVisitStatus_None [of s1 cid False None "Some now"] by auto
      note s2 = updateCustomerVisitStatus_Some [OF u]
      have "snd (forceExitVisitor s cid reason now) = s2"
        using ne Inr Some e u
        by (cases "personalInfo (fst x)") (simp_all add: forceExitVisitor_def Let_def)
      then have "snd (forceExitVisitor s cid reason now) =
          s\<lparr>visits := update_first (\<lambda>x. visitId x = visitId v)
            (\<lambda>x. x\<lparr>exitTime := Some now,
                    duration := Some ((now - entryTime x) div msPerMinute)\<rparr>) (visits s),
            customers := update_first (\<lambda>x. customerId x = v_customerId v)
            (\<lambda>x. x\<lparr>currentVisit := Some \<lparr> isInside = False, cv_entryTime = None,
                                           cv_exitTime = Some now \<rparr>\<rparr>) (customers s),
            scanHistory := scanHistory s\<rparr>"
        using s1 s2 v(3) by simp
      then show ?thesis
        using exit_ok [OF assms v(1) v(2), where h = "scanHistory s" and t = now
          and cv = "\<lparr> isInside = False, cv_entryTime = None, cv_exitTime = Some now \<rparr>"
          and d = "\<lambda>x. Some ((now - entryTime x) div msPerMinute)"]
        by simp
    qed
  qed
qed

lemma apply_op_ok: "ledger_ok s \<Longrightarrow> ledger_ok (apply_op cal s x)"
proof -
  assume ok: "ledger_ok s"
  obtain op now where x: "x = (op, now)" by (cases x)
  show ?thesis
    unfolding x
    by (cases op)
      (simp_all add: ok processBarcodeEntry_ok manualEntryExit_ok emergencyOverride_ok
        forceExitVisitor_ok registerCustomer_ok)
qed

lemma run_ok: "ledger_ok s \<Longrightarrow> ledger_ok (run cal s ops)"
  unfolding run_def by (induction ops arbitrary: s) (simp_all add: apply_op_ok)

lemma openCount_openIds: "openCount s x = length (filter (\<lambda>i. i = x) (openIds s))"
  by (simp add: openCount_def openIds_def getCurrentVisits_def filter_map comp_def conj_commute)

lemma ledger_ok_equivalence:
  assumes "ledger_ok s" and "c \<in> set (customers s)"
  shows "inside c \<longleftrightarrow> openCount s (customerId c) = 1"
proof -
  from assms(1) have d: "distinct (map customerId (customers s))"
    and dO: "distinct (openIds s)" and eq: "set (openIds s) = set (insideIds s)"
    by (simp_all add: ledger_ok_def)
  have "openCount s (customerId c) = (if customerId c \<in> set (openIds s) then 1 else 0)"
    unfolding openCount_openIds using dO by (rule distinct_count)
  moreover have "customerId c \<in> set (insideIds s) \<longleftrightarrow> inside c"
  proof
    assume "inside c"
    with assms(2) show "customerId c \<in> set (insideIds s)" by (auto simp: insideIds_def)
  next
    assume "customerId c \<in> set (insideIds s)"
    then show "inside c"
      using inside_unique [OF d assms(2)] by (auto simp: insideIds_def)
  qed
  ultimately show ?thesis using eq by simp
qed

subsection \<open>The visit invariant\<close>

text \<open>
  C1, as the code has it. From a well-formed ledger, every sequence of scans, manual
  entries and exits, emergency overrides, forced exits and registrations leads to a
  well-formed ledger, and in it every customer is marked inside if and only if exactly
  one visit record of the customer has no exit time.
\<close>

theorem visit_invariant:
  assumes "ledger_ok s"
  shows "ledger_ok (run cal s ops)
    \<and> (\<forall>c \<in> set (customers (run cal s ops)).
          inside c \<longleftrightarrow> openCount (run cal s ops) (customerId c) = 1)"
  using run_ok [OF assms, of cal ops] ledger_ok_equivalence [of "run cal s ops"] by blast

theorem visit_invariant_witness:
  "ledger_ok desk
   \<and> ledger_ok (run plain_days desk morning)
   \<and> list_all (\<lambda>c. inside c \<longleftrightarrow> openCount (run plain_days desk morning) (customerId c) = 1)
        (customers (run plain_days desk morning))
   \<and> map customerId (customers (run plain_days desk morning)) = [''00000003'', ''00000004'', ''00000011'']
   \<and> map inside (customers (run plain_days desk morning)) = [False, False, True]
   \<and> map (openCount (run plain_days desk morning)) [''00000003'', ''00000004'', ''00000011''] = [0, 0, 1]
   \<and> length (visits (run plain_days desk morning)) = 3"
proof -
  have h: "ledger_ok desk" by code_simp
  have c: "map customerId (customers (run plain_days desk morning)) = [''00000003'', ''00000004'', ''00000011'']"
    by code_simp
  have i: "map inside (customers (run plain_days desk morning)) = [False, False, True]" by code_simp
  have o: "map (openCount (run plain_days desk morning)) [''00000003'', ''00000004'', ''00000011''] = [0, 0, 1]"
    by code_simp
  have l: "length (visits (run plain_days desk morning)) = 3" by code_simp
  from visit_invariant [OF h, of plain_days morning] h c i o l show ?thesis
    by (simp add: list_all_iff)
qed

text \<open>
  C1 as stated fails: the equivalence alone is not preserved. It holds in each of the
  four seeds and fails after two scans of customer C on the first, after one scan of C
  on the second and on the third, and after the registration of the newcomer on the
  fourth.
\<close>

theorem visit_invariant_counterexample:
  "equivalence seed_ids
   \<and> \<not> equivalence (run plain_days seed_ids [(Scan ''00000003'' None, 1001 * msPerDay),
                                  (Scan ''00000003'' None, 1001 * msPerDay + 3600000)])
   \<and> equivalence seed_twice
   \<and> \<not> equivalence (run plain_days seed_twice [(Scan ''00000003'' None, 1001 * msPerDay)])
   \<and> equivalence seed_two_open
   \<and> \<not> equivalence (run plain_days seed_two_open [(Scan ''00000003'' None, 1001 * msPerDay)])
   \<and> equivalence seed_orphan
   \<and> \<not> equivalence (run plain_days seed_orphan [(Register newcomer, 1000 * msPerDay + 60000)])"
  by code_simp

end
